theory Spec2Isabelle
  imports Main "HOL-Library.Sublist"
begin

section \<open>Strings\<close>

text \<open>
  A string of the program is the list of the bytes of its UTF-8 encoding. Equality,
  concatenation, emptiness, \<open>startsWith\<close> and \<open>includes\<close> with an ASCII argument read
  the same on the bytes as on the characters.
\<close>

definition startsWith :: "string \<Rightarrow> string \<Rightarrow> bool" where
  "startsWith s p = (take (length p) s = p)"

fun includesStr :: "string \<Rightarrow> string \<Rightarrow> bool" where
  "includesStr [] p = (p = [])"
| "includesStr (c # cs) p = (startsWith (c # cs) p \<or> includesStr cs p)"

definition lowerChar :: "char \<Rightarrow> char" where
  "lowerChar c =
     (let n = (of_char c :: nat) in if 65 \<le> n \<and> n \<le> 90 then char_of (n + 32) else c)"

text \<open>
  The characters of a string: each byte that is not a continuation byte (\<open>0x80\<close> to
  \<open>0xBF\<close>) starts one, and the continuation bytes after it belong to it.
\<close>

definition isContinuation :: "char \<Rightarrow> bool" where
  "isContinuation c = (128 \<le> (of_char c :: nat) \<and> (of_char c :: nat) < 192)"

fun characters :: "string \<Rightarrow> string list" where
  "characters [] = []"
| "characters (c # cs) =
     (case characters cs of
        [] \<Rightarrow> [[c]]
      | g # gs \<Rightarrow>
          (case g of
             [] \<Rightarrow> [c] # gs
           | b # bs \<Rightarrow> if isContinuation b then (c # g) # gs else [c] # g # gs))"

text \<open>
  What \<open>String.prototype.trim\<close> strips at both ends: the WhiteSpace and LineTerminator
  code points of ECMAScript, that is U+0009 to U+000D, U+0020, U+00A0, U+1680, U+2000 to
  U+200A, U+2028, U+2029, U+202F, U+205F, U+3000 and U+FEFF.
\<close>

definition whiteSpace :: "string list" where
  "whiteSpace =
     [[CHR 0x09], [CHR 0x0A], [CHR 0x0B], [CHR 0x0C], [CHR 0x0D], [CHR 0x20],
      [CHR 0xC2, CHR 0xA0],
      [CHR 0xE1, CHR 0x9A, CHR 0x80],
      [CHR 0xE2, CHR 0x80, CHR 0x80], [CHR 0xE2, CHR 0x80, CHR 0x81],
      [CHR 0xE2, CHR 0x80, CHR 0x82], [CHR 0xE2, CHR 0x80, CHR 0x83],
      [CHR 0xE2, CHR 0x80, CHR 0x84], [CHR 0xE2, CHR 0x80, CHR 0x85],
      [CHR 0xE2, CHR 0x80, CHR 0x86], [CHR 0xE2, CHR 0x80, CHR 0x87],
      [CHR 0xE2, CHR 0x80, CHR 0x88], [CHR 0xE2, CHR 0x80, CHR 0x89],
      [CHR 0xE2, CHR 0x80, CHR 0x8A],
      [CHR 0xE2, CHR 0x80, CHR 0xA8], [CHR 0xE2, CHR 0x80, CHR 0xA9],
      [CHR 0xE2, CHR 0x80, CHR 0xAF],
      [CHR 0xE2, CHR 0x81, CHR 0x9F],
      [CHR 0xE3, CHR 0x80, CHR 0x80],
      [CHR 0xEF, CHR 0xBB, CHR 0xBF]]"

definition isSpace :: "string \<Rightarrow> bool" where
  "isSpace g = (g \<in> set whiteSpace)"

definition trim :: "string \<Rightarrow> string" where
  "trim s = concat (rev (dropWhile isSpace (rev (dropWhile isSpace (characters s)))))"

text \<open>
  The pattern \<open>/wohn|zimmer|apartment|angebot|bewerb/i\<close>, tested with \<open>.test\<close>. Without
  the \<open>u\<close> flag, the \<open>i\<close> flag lets a letter of the pattern match the same letter in
  either case and no other character: the subject is searched with A to Z folded.
\<close>

definition foldAscii :: "string \<Rightarrow> string" where
  "foldAscii s = map lowerChar s"

definition keywordPattern :: "string list" where
  "keywordPattern = [''wohn'', ''zimmer'', ''apartment'', ''angebot'', ''bewerb'']"

definition hasKeywords :: "string \<Rightarrow> bool" where
  "hasKeywords s = list_ex (includesStr (foldAscii s)) keywordPattern"


section \<open>Offers and the insertion-ordered map\<close>

record offer =
  offerId :: string
  title :: string
  url :: string

text \<open>
  A JavaScript \<open>Map\<close> keyed by strings: an association list in insertion order.
  \<open>set\<close> on a key already there replaces the value and keeps the key's position.
\<close>

type_synonym 'v jsmap = "(string \<times> 'v) list"

definition mapHas :: "'v jsmap \<Rightarrow> string \<Rightarrow> bool" where
  "mapHas m k = (k \<in> set (map fst m))"

fun mapSet :: "'v jsmap \<Rightarrow> string \<Rightarrow> 'v \<Rightarrow> 'v jsmap" where
  "mapSet [] k v = [(k, v)]"
| "mapSet ((k', v') # m) k v =
     (if k' = k then (k, v) # m else (k', v') # mapSet m k v)"

definition mapValues :: "'v jsmap \<Rightarrow> 'v list" where
  "mapValues m = map snd m"


section \<open>The parsed page and the platform\<close>

text \<open>
  The HTML parser and its selector engine are a library. A loaded document is the
  answers it gives to the queries of \<open>extractOffersFromHtml\<close>, in document order:
  \<^item> \<open>teaserList\<close>: the elements of \<open>#residential-offer-list .teaser[data-href]\<close>, each
    with its \<open>data-href\<close> attribute and the text of its \<open>.subheader-5\<close> and
    \<open>.headline-5\<close> descendants;
  \<^item> \<open>container sel\<close>: for a selector, how many elements it matches and the
    \<open>a[href]\<close> elements found below them;
  \<^item> \<open>allAnchors\<close>: the \<open>a[href]\<close> elements of the whole document.
\<close>

record teaser =
  dataHref :: "string option"
  subheader5 :: string
  headline5 :: string

record anchor =
  href :: "string option"
  linkText :: string

record selection =
  matched :: nat
  anchorsIn :: "anchor list"

record page =
  teaserList :: "teaser list"
  container :: "string \<Rightarrow> selection"
  allAnchors :: "anchor list"

datatype error = TypeError string | RequestError string

text \<open>
  JSON values as the file library's \<open>readJson\<close> returns them. An object is the list
  of its own properties in order. The numeric payload is only ever tested for zero.
\<close>

datatype json =
  JNull
| JBool bool
| JNum int
| JStr string
| JArr "json list"
| JObj "(string \<times> json) list"

datatype response =
  NetworkFailure string
| Response nat "string \<rightharpoonup> string" "string option"

text \<open>
  What the program takes from outside in one cycle:
  \<^item> \<open>cheerioLoad\<close>: the parser, from markup to the loaded document;
  \<^item> \<open>newURL href base\<close>: \<open>new URL(href, base).toString()\<close>, \<open>None\<close> when the
    constructor throws on an invalid URL;
  \<^item> \<open>httpGet url headers\<close>: the server's answer to the GET (a network failure or
    timeout, or a status, the response headers and the body when it is a string);
  \<^item> \<open>httpPost url payload\<close>: \<open>Some reason\<close> when the POST throws;
  \<^item> \<open>toLowerCase\<close>: \<open>String.prototype.toLowerCase\<close>, with the case mapping of the
    platform's Unicode tables;
  \<^item> \<open>now\<close>: \<open>new Date().toLocaleString()\<close>.
\<close>

record env =
  cheerioLoad :: "string \<Rightarrow> page"
  newURL :: "string \<Rightarrow> string \<Rightarrow> string option"
  httpGet :: "string \<Rightarrow> (string \<times> json) list \<Rightarrow> response"
  httpPost :: "string \<Rightarrow> json \<Rightarrow> string option"
  toLowerCase :: "string \<Rightarrow> string"
  now :: string


section \<open>extractOffersFromHtml\<close>

text \<open>
  \<open>href.startsWith("http") ? href : new URL(href, MONITOR_URL).toString()\<close>; the
  constructor's exception is the \<open>Inl\<close> branch.
\<close>

definition absoluteOf :: "env \<Rightarrow> string \<Rightarrow> string \<Rightarrow> error + string" where
  "absoluteOf e base h =
     (if startsWith h ''http'' then Inr h
      else case newURL e h base of
             None \<Rightarrow> Inl (TypeError ''Invalid URL'')
           | Some u \<Rightarrow> Inr u)"

text \<open>\<open>.each\<close> with a callback that may throw: the first exception ends the loop.\<close>

fun eachE :: "('s \<Rightarrow> 'a \<Rightarrow> error + 's) \<Rightarrow> 'a list \<Rightarrow> 's \<Rightarrow> error + 's" where
  "eachE f [] s = Inr s"
| "eachE f (x # xs) s = (case f s x of Inl err \<Rightarrow> Inl err | Inr s' \<Rightarrow> eachE f xs s')"

text \<open>The callback of \<open>teaserList.each\<close> (source lines 121 to 132).\<close>

definition teaserStep :: "env \<Rightarrow> string \<Rightarrow> offer jsmap \<Rightarrow> teaser \<Rightarrow> error + offer jsmap" where
  "teaserStep e base offersMap el =
     (case dataHref el of
        None \<Rightarrow> Inr offersMap
      | Some dh \<Rightarrow>
          if dh = [] then Inr offersMap
          else
            let location = trim (subheader5 el);
                headline = trim (headline5 el);
                fullTitle = (if location \<noteq> [] then location @ '': '' @ headline else headline)
            in (case absoluteOf e base dh of
                  Inl err \<Rightarrow> Inl err
                | Inr absolute \<Rightarrow>
                    Inr (mapSet offersMap absolute
                          \<lparr>offerId = absolute,
                           title = (if fullTitle \<noteq> [] then fullTitle else absolute),
                           url = absolute\<rparr>)))"

text \<open>
  The loop over the container selectors (source lines 136 to 148): \<open>anchors\<close> starts
  as \<open>null\<close>, is assigned at each selector that matches an element, and the loop
  breaks at the first assignment with an anchor in it.
\<close>

definition containers :: "string list" where
  "containers = [''main'', ''#content'', ''.container'', ''.content'']"

fun containerLoop :: "page \<Rightarrow> string list \<Rightarrow> anchor list option \<Rightarrow> anchor list option" where
  "containerLoop pg [] anchors = anchors"
| "containerLoop pg (sel # sels) anchors =
     (let c = container pg sel in
      if matched c \<noteq> 0 then
        (if anchorsIn c \<noteq> [] then Some (anchorsIn c)
         else containerLoop pg sels (Some (anchorsIn c)))
      else containerLoop pg sels anchors)"

definition fallbackAnchors :: "page \<Rightarrow> anchor list" where
  "fallbackAnchors pg =
     (case containerLoop pg containers None of
        None \<Rightarrow> allAnchors pg
      | Some as \<Rightarrow> if as = [] then allAnchors pg else as)"

definition isInternal :: "string \<Rightarrow> bool" where
  "isInternal h = (startsWith h ''/'' \<or> includesStr h ''stwdo.de'')"

text \<open>The callback of \<open>anchors.each\<close> (source lines 150 to 165).\<close>

definition anchorStep :: "env \<Rightarrow> string \<Rightarrow> offer jsmap \<Rightarrow> anchor \<Rightarrow> error + offer jsmap" where
  "anchorStep e base offersMap el =
     (let h = (case href el of None \<Rightarrow> [] | Some s \<Rightarrow> s);
          text = trim (linkText el)
      in if h = [] then Inr offersMap
         else if isInternal h \<and> hasKeywords (text @ h) then
           (case absoluteOf e base h of
              Inl err \<Rightarrow> Inl err
            | Inr absolute \<Rightarrow>
                if \<not> mapHas offersMap absolute then
                  Inr (mapSet offersMap absolute
                        \<lparr>offerId = absolute,
                         title = (if text \<noteq> [] then text else absolute),
                         url = absolute\<rparr>)
                else Inr offersMap)
         else Inr offersMap)"

definition extractOffersFromHtml :: "env \<Rightarrow> string \<Rightarrow> string \<Rightarrow> error + offer list" where
  "extractOffersFromHtml e base html =
     (let pg = cheerioLoad e html in
      case eachE (teaserStep e base) (teaserList pg) [] of
        Inl err \<Rightarrow> Inl err
      | Inr offersMap \<Rightarrow>
          if length offersMap = 0 then
            (case eachE (anchorStep e base) (fallbackAnchors pg) offersMap of
               Inl err \<Rightarrow> Inl err
             | Inr offersMap' \<Rightarrow> Inr (mapValues offersMap'))
          else Inr (mapValues offersMap))"


section \<open>Configuration\<close>

text \<open>The environment variables the module reads when it is loaded.\<close>

record processEnv =
  MONITOR_URL_var :: "string option"
  NOTIFY_METHOD_var :: "string option"
  TELEGRAM_BOT_TOKEN :: "string option"
  TELEGRAM_CHAT_ID :: "string option"
  WEBHOOK_URL :: "string option"

text \<open>\<open>v || d\<close> on a value that is a string or undefined.\<close>

definition orDefault :: "string option \<Rightarrow> string \<Rightarrow> string" where
  "orDefault v d = (case v of None \<Rightarrow> d | Some s \<Rightarrow> if s = [] then d else s)"

definition MONITOR_URL :: "processEnv \<Rightarrow> string" where
  "MONITOR_URL pe =
     orDefault (MONITOR_URL_var pe)
       ''https://www.stwdo.de/wohnen/aktuelle-wohnangebote#residential-offer-list''"

definition NOTIFY_METHOD :: "env \<Rightarrow> processEnv \<Rightarrow> string" where
  "NOTIFY_METHOD e pe = toLowerCase e (orDefault (NOTIFY_METHOD_var pe) ''console'')"


section \<open>JSON values in JavaScript\<close>

fun truthy :: "json \<Rightarrow> bool" where
  "truthy JNull = False"
| "truthy (JBool b) = b"
| "truthy (JNum n) = (n \<noteq> 0)"
| "truthy (JStr s) = (s \<noteq> [])"
| "truthy (JArr xs) = True"
| "truthy (JObj kvs) = True"

text \<open>
  \<open>v.k\<close> for a value that is not null and one of the keys \<open>offers\<close>, \<open>etag\<close>,
  \<open>lastModified\<close>, none of which a string, a number, a boolean or an array has:
  \<open>None\<close> is \<open>undefined\<close>.
\<close>

fun getProp :: "json \<Rightarrow> string \<Rightarrow> json option" where
  "getProp (JObj kvs) k = map_of kvs k"
| "getProp v k = None"

fun digitChar :: "nat \<Rightarrow> char" where
  "digitChar n = char_of (48 + n)"

fun decimal :: "nat \<Rightarrow> string" where
  "decimal n = (if n < 10 then [digitChar n] else decimal (n div 10) @ [digitChar (n mod 10)])"

declare decimal.simps [simp del]

text \<open>
  \<open>{ ...v }\<close>: the own enumerable properties of the value, which for an array and a
  string are its indices. A string is indexed by UTF-16 code unit, which for text of
  the Basic Multilingual Plane is by character.
\<close>

fun spread :: "json \<Rightarrow> (string \<times> json) list" where
  "spread (JObj kvs) = kvs"
| "spread (JArr xs) = zip (map decimal [0 ..< length xs]) xs"
| "spread (JStr s) = zip (map decimal [0 ..< length (characters s)]) (map JStr (characters s))"
| "spread v = []"

text \<open>
  A JavaScript \<open>Set\<close> of parsed JSON values, in insertion order. Membership is
  SameValueZero: primitives by value; every array and object that the parser built is
  an object of its own, the same as no other element.
\<close>

fun sameValueZero :: "json \<Rightarrow> json \<Rightarrow> bool" where
  "sameValueZero (JArr xs) v = False"
| "sameValueZero (JObj kvs) v = False"
| "sameValueZero u v = (u = v)"

definition setHas :: "json list \<Rightarrow> json \<Rightarrow> bool" where
  "setHas s v = list_ex (\<lambda>u. sameValueZero u v) s"

definition setAdd :: "json list \<Rightarrow> json \<Rightarrow> json list" where
  "setAdd s v = (if setHas s v then s else s @ [v])"

definition newSet :: "json list \<Rightarrow> json list" where
  "newSet xs = foldl setAdd [] xs"


section \<open>The files and the effects of a cycle\<close>

text \<open>
  A file is missing, holds bytes that \<open>readJson\<close> throws on, or holds a JSON value.
  The trace lists what the process did to the outside, oldest first. Writing a file
  succeeds and replaces its content.
\<close>

datatype jsonFile = Missing | Unparseable | Parsed json

datatype event =
  ConsoleLog "string list"
| ConsoleWarn "string list"
| ConsoleError "string list"
| Get string "(string \<times> json) list"
| Post string json
| WriteJson string json

record world =
  storageFile :: jsonFile
  metaFile :: jsonFile
  trace :: "event list"

definition emit :: "event \<Rightarrow> world \<Rightarrow> world" where
  "emit ev w = w\<lparr>trace := trace w @ [ev]\<rparr>"

definition emptySeen :: json where
  "emptySeen = JObj [(''offers'', JArr [])]"

definition isArray :: "json option \<Rightarrow> bool" where
  "isArray v = (case v of Some (JArr xs) \<Rightarrow> True | _ \<Rightarrow> False)"

text \<open>
  \<open>loadLastSeen\<close> (source lines 78 to 88). The result is a sum, as for every function
  that a caller wraps in \<open>try\<close>; the \<open>catch\<close> in the function makes it \<open>Inr\<close> on every
  path.
\<close>

definition loadLastSeen :: "world \<Rightarrow> (error + json) \<times> world" where
  "loadLastSeen w =
     (case storageFile w of
        Missing \<Rightarrow> (Inr emptySeen, w)
      | Unparseable \<Rightarrow>
          (Inr emptySeen,
           emit (ConsoleWarn
             [''Warning: Could not read last seen file, starting with empty list.'']) w)
      | Parsed data \<Rightarrow>
          if \<not> truthy data \<or> \<not> isArray (getProp data ''offers'') then (Inr emptySeen, w)
          else (Inr data, w))"

definition saveLastSeen :: "json \<Rightarrow> world \<Rightarrow> world" where
  "saveLastSeen data w =
     emit (WriteJson ''stwdo-last.json'' data) (w\<lparr>storageFile := Parsed data\<rparr>)"

definition loadMeta :: "world \<Rightarrow> json" where
  "loadMeta w =
     (case metaFile w of
        Missing \<Rightarrow> JObj []
      | Unparseable \<Rightarrow> JObj []
      | Parsed data \<Rightarrow> data)"

definition saveMeta :: "json \<Rightarrow> world \<Rightarrow> world" where
  "saveMeta meta w =
     emit (WriteJson ''stwdo-meta.json'' meta) (w\<lparr>metaFile := Parsed meta\<rparr>)"


section \<open>notifyNewOffers\<close>

definition bullet :: string where
  "bullet = [CHR 0xE2, CHR 0x80, CHR 0xA2]"

definition emDash :: string where
  "emDash = [CHR 0xE2, CHR 0x80, CHR 0x94]"

fun joinWith :: "string \<Rightarrow> string list \<Rightarrow> string" where
  "joinWith sep [] = []"
| "joinWith sep [x] = x"
| "joinWith sep (x # y # ys) = x @ sep @ joinWith sep (y # ys)"

definition formatMessage :: "env \<Rightarrow> offer list \<Rightarrow> string" where
  "formatMessage e newOffers =
     (let lines = map (\<lambda>x. bullet @ '' '' @ title x @ '' '' @ emDash @ '' '' @ url x) newOffers
      in ''Neue Wohnungsangebote gefunden ('' @ now e @ ''):'' @ [CHR 0x0A]
           @ joinWith [CHR 0x0A] lines)"

definition errText :: "error \<Rightarrow> string" where
  "errText err = (case err of TypeError m \<Rightarrow> m | RequestError m \<Rightarrow> m)"

text \<open>\<open>await axios.post(url, payload)\<close>: the request goes out, and it may throw.\<close>

definition axiosPost :: "env \<Rightarrow> string \<Rightarrow> json \<Rightarrow> world \<Rightarrow> (error + unit) \<times> world" where
  "axiosPost e u payload w =
     ((case httpPost e u payload of
         None \<Rightarrow> Inr ()
       | Some reason \<Rightarrow> Inl (RequestError reason)),
      emit (Post u payload) w)"

definition telegramMissing :: "world \<Rightarrow> (error + unit) \<times> world" where
  "telegramMissing w =
     (Inr (),
      emit (ConsoleError
        [''Telegram selected but TELEGRAM_BOT_TOKEN or TELEGRAM_CHAT_ID is missing in env.'']) w)"

definition notifyTelegram :: "processEnv \<Rightarrow> env \<Rightarrow> string \<Rightarrow> world \<Rightarrow> (error + unit) \<times> world" where
  "notifyTelegram pe e message w =
     (case TELEGRAM_BOT_TOKEN pe of
        None \<Rightarrow> telegramMissing w
      | Some token \<Rightarrow>
          (case TELEGRAM_CHAT_ID pe of
             None \<Rightarrow> telegramMissing w
           | Some chat \<Rightarrow>
               if token = [] \<or> chat = [] then telegramMissing w
               else
                 (case axiosPost e (''https://api.telegram.org/bot'' @ token @ ''/sendMessage'')
                         (JObj [(''chat_id'', JStr chat),
                                (''text'', JStr message),
                                (''disable_web_page_preview'', JBool False)]) w of
                    (Inr u, w') \<Rightarrow>
                      (Inr (), emit (ConsoleLog [''Sent Telegram notification'']) w')
                  | (Inl err, w') \<Rightarrow>
                      (Inr (), emit (ConsoleError [''Telegram notify error'', errText err]) w'))))"

definition webhookMissing :: "world \<Rightarrow> (error + unit) \<times> world" where
  "webhookMissing w =
     (Inr (), emit (ConsoleError [''Webhook selected but WEBHOOK_URL is missing in env.'']) w)"

definition notifyWebhook :: "processEnv \<Rightarrow> env \<Rightarrow> string \<Rightarrow> world \<Rightarrow> (error + unit) \<times> world" where
  "notifyWebhook pe e message w =
     (case WEBHOOK_URL pe of
        None \<Rightarrow> webhookMissing w
      | Some target \<Rightarrow>
          if target = [] then webhookMissing w
          else
            (case axiosPost e target (JObj [(''content'', JStr message)]) w of
               (Inr u, w') \<Rightarrow> (Inr (), emit (ConsoleLog [''Sent webhook notification'']) w')
             | (Inl err, w') \<Rightarrow>
                 (Inr (), emit (ConsoleError [''Webhook notify error'', errText err]) w')))"

text \<open>\<open>notifyNewOffers\<close> (source lines 171 to 216).\<close>

definition notifyNewOffers :: "processEnv \<Rightarrow> env \<Rightarrow> offer list \<Rightarrow> world \<Rightarrow> (error + unit) \<times> world" where
  "notifyNewOffers pe e newOffers w =
     (if length newOffers = 0 then (Inr (), w)
      else
        let message = formatMessage e newOffers in
        if NOTIFY_METHOD e pe = ''telegram'' then notifyTelegram pe e message w
        else if NOTIFY_METHOD e pe = ''webhook'' then notifyWebhook pe e message w
        else if NOTIFY_METHOD e pe = ''email'' then
          (Inr (),
           emit (ConsoleLog
             [''Email notify selected but email sending not implemented in template. Message would be:''
                @ [CHR 0x0A], message]) w)
        else (Inr (), emit (ConsoleLog [message]) w))"


section \<open>checkOnce\<close>

definition validateStatus :: "nat \<Rightarrow> bool" where
  "validateStatus s = ((s \<ge> 200 \<and> s < 300) \<or> s = 304)"

text \<open>\<open>if (meta.k) headers[name] = meta.k\<close>\<close>

definition withHeader :: "json \<Rightarrow> string \<Rightarrow> string \<Rightarrow> (string \<times> json) list \<Rightarrow> (string \<times> json) list" where
  "withHeader meta k name headers =
     (case getProp meta k of
        None \<Rightarrow> headers
      | Some v \<Rightarrow> if truthy v then mapSet headers name v else headers)"

definition requestHeaders :: "json \<Rightarrow> (string \<times> json) list" where
  "requestHeaders meta =
     withHeader meta ''lastModified'' ''If-Modified-Since''
       (withHeader meta ''etag'' ''If-None-Match''
          [(''User-Agent'', JStr ''stwdo-offer-monitor/1.0 (+https://github.com)'')])"

text \<open>\<open>if (res.headers[name]) newMeta.k = res.headers[name]\<close>\<close>

definition withValidator ::
  "(string \<rightharpoonup> string) \<Rightarrow> string \<Rightarrow> string \<Rightarrow> (string \<times> json) list \<Rightarrow> (string \<times> json) list" where
  "withValidator hs name k newMeta =
     (case hs name of
        None \<Rightarrow> newMeta
      | Some v \<Rightarrow> if v \<noteq> [] then mapSet newMeta k (JStr v) else newMeta)"

definition updatedMeta :: "json \<Rightarrow> (string \<rightharpoonup> string) \<Rightarrow> json" where
  "updatedMeta meta hs =
     JObj (withValidator hs ''last-modified'' ''lastModified''
            (withValidator hs ''etag'' ''etag'' (spread meta)))"

text \<open>\<open>last.offers || []\<close>, on what \<open>loadLastSeen\<close> returns.\<close>

definition offersOf :: "json \<Rightarrow> json list" where
  "offersOf lastData = (case getProp lastData ''offers'' of Some (JArr xs) \<Rightarrow> xs | _ \<Rightarrow> [])"

text \<open>\<open>offers.filter(o => !lastSeenIds.has(o.id))\<close>\<close>

definition newOffersOf :: "offer list \<Rightarrow> json list \<Rightarrow> offer list" where
  "newOffersOf offers lastSeenIds =
     filter (\<lambda>x. \<not> setHas lastSeenIds (JStr (offerId x))) offers"

definition fetchError :: "string \<Rightarrow> world \<Rightarrow> world" where
  "fetchError m w = emit (ConsoleError [''Fetch or processing error:'', m]) w"

text \<open>
  What follows the fetch of changed content (source lines 241 to 272), inside the
  \<open>try\<close> whose \<open>catch\<close> logs and returns.
\<close>

definition processContent ::
  "processEnv \<Rightarrow> env \<Rightarrow> json \<Rightarrow> (string \<rightharpoonup> string) \<Rightarrow> string option \<Rightarrow> world \<Rightarrow> world" where
  "processContent pe e meta hs body w =
     (let w1 = saveMeta (updatedMeta meta hs) w;
          html = (case body of Some s \<Rightarrow> s | None \<Rightarrow> [])
      in case extractOffersFromHtml e (MONITOR_URL pe) html of
           Inl err \<Rightarrow> fetchError (errText err) w1
         | Inr offers \<Rightarrow>
             (case loadLastSeen w1 of
                (Inl err, w2) \<Rightarrow>
                  emit (ConsoleError
                    [''Failed to load last seen offers, skipping this check to avoid data loss.'']) w2
              | (Inr lastData, w2) \<Rightarrow>
                  let lastSeenIds = newSet (offersOf lastData);
                      newOffers = newOffersOf offers lastSeenIds
                  in if length newOffers \<noteq> 0 then
                       (case notifyNewOffers pe e newOffers
                               (emit (ConsoleLog ([now e, ''- Detected new offers:'']
                                        @ map title newOffers)) w2) of
                          (Inl err, w3) \<Rightarrow> fetchError (errText err) w3
                        | (Inr u, w3) \<Rightarrow>
                            saveLastSeen
                              (JObj [(''offers'',
                                 JArr (foldl setAdd lastSeenIds
                                         (map (\<lambda>x. JStr (offerId x)) newOffers)))]) w3)
                     else emit (ConsoleLog [now e, ''- No new offers (count:'',
                                  decimal (length offers), '')'']) w2))"

text \<open>
  \<open>checkOnce\<close> (source lines 219 to 276). Reading \<open>meta.etag\<close> of \<open>null\<close> throws
  before the \<open>try\<close>, so the returned promise rejects: the \<open>Inl\<close> result.
\<close>

definition checkOnce :: "processEnv \<Rightarrow> env \<Rightarrow> world \<Rightarrow> (error + unit) \<times> world" where
  "checkOnce pe e w =
     (let meta = loadMeta w in
      if meta = JNull then
        (Inl (TypeError (''Cannot read properties of null (reading ''
                          @ [CHR 0x27] @ ''etag'' @ [CHR 0x27] @ '')'')), w)
      else
        let headers = requestHeaders meta;
            w1 = emit (Get (MONITOR_URL pe) headers) w
        in case httpGet e (MONITOR_URL pe) headers of
             NetworkFailure reason \<Rightarrow> (Inr (), fetchError reason w1)
           | Response status hs body \<Rightarrow>
               if \<not> validateStatus status then
                 (Inr (), fetchError (''Request failed with status code '' @ decimal status) w1)
               else if status = 304 then
                 (Inr (), emit (ConsoleLog [now e, ''- Not modified (304). No changes.'']) w1)
               else (Inr (), processContent pe e meta hs body w1))"


section \<open>Example inputs\<close>

text \<open>
  A platform whose parser answers every markup with the given page, whose server
  answers every GET with the given response and whose POST ends as given; and the
  environment variables with the given notification method and Telegram credentials.
  Its \<open>toLowerCase\<close> is the platform's on the strings of the examples: it maps A to Z
  and the Kelvin sign U+212A (to \<open>k\<close>), and leaves every other byte.
\<close>

fun exampleLowerCase :: "string \<Rightarrow> string" where
  "exampleLowerCase [] = []"
| "exampleLowerCase (c # cs) =
     (if take 3 (c # cs) = [CHR 0xE2, CHR 0x84, CHR 0xAA]
      then CHR ''k'' # exampleLowerCase (drop 2 cs)
      else lowerChar c # exampleLowerCase cs)"

definition exampleEnv :: "page \<Rightarrow> response \<Rightarrow> string option \<Rightarrow> env" where
  "exampleEnv pg r posted =
     \<lparr>cheerioLoad = (\<lambda>html. pg),
      newURL = (\<lambda>h b. Some (''https://www.stwdo.de'' @ h)),
      httpGet = (\<lambda>u hs. r),
      httpPost = (\<lambda>u payload. posted),
      toLowerCase = exampleLowerCase,
      now = ''2.11.2026, 09:00:00''\<rparr>"

definition exampleVars :: "string option \<Rightarrow> string option \<Rightarrow> processEnv" where
  "exampleVars method token =
     \<lparr>MONITOR_URL_var = None,
      NOTIFY_METHOD_var = method,
      TELEGRAM_BOT_TOKEN = token,
      TELEGRAM_CHAT_ID = Some ''42'',
      WEBHOOK_URL = None\<rparr>"

definition noContainer :: "string \<Rightarrow> selection" where
  "noContainer sel = \<lparr>matched = 0, anchorsIn = []\<rparr>"

definition emptyPage :: page where
  "emptyPage = \<lparr>teaserList = [], container = noContainer, allAnchors = []\<rparr>"


definition teaserPage :: "teaser list \<Rightarrow> page" where
  "teaserPage ts = \<lparr>teaserList = ts, container = noContainer, allAnchors = []\<rparr>"

definition oneTeaser :: "teaser list" where
  "oneTeaser = [\<lparr>dataHref = Some ''https://www.stwdo.de/b'', subheader5 = ''Dortmund'',
                 headline5 = ''Zimmer''\<rparr>]"

definition seenA :: world where
  "seenA = \<lparr>storageFile = Parsed (JObj [(''offers'', JArr [JStr ''https://www.stwdo.de/a''])]),
            metaFile = Missing, trace = []\<rparr>"


definition offerB :: offer where
  "offerB = \<lparr>offerId = ''https://www.stwdo.de/b'', title = ''Dortmund: Zimmer'',
              url = ''https://www.stwdo.de/b''\<rparr>"


definition metaV1 :: world where
  "metaV1 = \<lparr>storageFile = Missing,
             metaFile = Parsed (JObj [(''etag'', JStr ''v1''), (''lastModified'', JStr ''Mon'')]),
             trace = []\<rparr>"


definition zimmerAnchor :: anchor where
  "zimmerAnchor = \<lparr>href = Some ''/wohnen/angebot/123'', linkText = ''Zimmer frei''\<rparr>"

definition mixedPage :: page where
  "mixedPage = \<lparr>teaserList = oneTeaser, container = noContainer, allAnchors = [zimmerAnchor]\<rparr>"

definition linksPage :: page where
  "linksPage =
     \<lparr>teaserList = [],
      container = noContainer,
      allAnchors =
        [\<lparr>href = Some ''/impressum'', linkText = ''Impressum''\<rparr>,
         zimmerAnchor,
         \<lparr>href = Some ''https://example.org/wohnen'', linkText = ''Wohnen''\<rparr>]\<rparr>"

definition zimmerPage :: page where
  "zimmerPage = \<lparr>teaserList = [], container = noContainer, allAnchors = [zimmerAnchor]\<rparr>"

text \<open>
  A platform on which \<open>new URL\<close> throws for the href \<open>//\<close> (a reference with an empty
  host), and a page with such an anchor after a well-formed one.
\<close>

definition brokenLinkPage :: page where
  "brokenLinkPage =
     \<lparr>teaserList = [],
      container = noContainer,
      allAnchors =
        [\<lparr>href = Some ''/wohnen/angebot/1'', linkText = ''Zimmer''\<rparr>,
         \<lparr>href = Some ''//'', linkText = ''Wohnen''\<rparr>]\<rparr>"

definition strictEnv :: env where
  "strictEnv =
     (exampleEnv brokenLinkPage (NetworkFailure []) None)
       \<lparr>newURL := (\<lambda>h b. if h = ''//'' then None else Some (''https://www.stwdo.de'' @ h))\<rparr>"

definition zimmerOffer :: offer where
  "zimmerOffer = \<lparr>offerId = ''https://www.stwdo.de/wohnen/angebot/123'', title = ''Zimmer frei'',
                  url = ''https://www.stwdo.de/wohnen/angebot/123''\<rparr>"


definition twinTeasers :: "teaser list" where
  "twinTeasers =
     [\<lparr>dataHref = Some ''https://www.stwdo.de/wohnen/angebot/7'', subheader5 = ''Dortmund'',
       headline5 = ''Apartment A''\<rparr>,
      \<lparr>dataHref = Some ''https://www.stwdo.de/wohnen/angebot/7'', subheader5 = ''Dortmund'',
       headline5 = ''Apartment B''\<rparr>]"

definition twinAnchors :: page where
  "twinAnchors =
     \<lparr>teaserList = [],
      container = noContainer,
      allAnchors =
        [\<lparr>href = Some ''https://www.stwdo.de/wohnen/angebot/7'', linkText = ''Apartment A''\<rparr>,
         \<lparr>href = Some ''https://www.stwdo.de/wohnen/angebot/7'', linkText = ''Apartment B''\<rparr>]\<rparr>"

definition corruptSeen :: world where
  "corruptSeen = \<lparr>storageFile = Unparseable, metaFile = Missing, trace = []\<rparr>"


section \<open>The set of seen ids\<close>

lemma sameValueZero_JStr: "sameValueZero u (JStr s) = (u = JStr s)"
  by (cases u) simp_all

lemma sameValueZero_eq: "sameValueZero u v \<Longrightarrow> u = v"
  by (cases u) simp_all

lemma setHas_JStr: "setHas xs (JStr s) = (JStr s \<in> set xs)"
  by (induction xs) (auto simp: setHas_def sameValueZero_JStr)

lemma set_setAdd: "set (setAdd xs v) = insert v (set xs)"
proof (cases "setHas xs v")
  case True
  then obtain u where "u \<in> set xs" "sameValueZero u v"
    by (auto simp: setHas_def list_ex_iff)
  then have "v \<in> set xs" using sameValueZero_eq by blast
  with True show ?thesis by (auto simp: setAdd_def)
next
  case False
  then show ?thesis by (simp add: setAdd_def)
qed

lemma set_foldl_setAdd: "set (foldl setAdd acc xs) = set acc \<union> set xs"
  by (induction xs arbitrary: acc) (auto simp: set_setAdd)

lemma set_newSet: "set (newSet xs) = set xs"
  by (simp add: newSet_def set_foldl_setAdd)

text \<open>
  C3. The diff step of \<open>checkOnce\<close> is a function of the extracted offers and the set
  built from the loaded array, and of nothing else; it returns the offers whose id is
  not an element of that array, as a subsequence of the extracted offers in their
  order. The third conjunct reads the same for an array of id strings.
\<close>

theorem differ_exact:
  "newOffersOf offers (newSet seen) = filter (\<lambda>x. JStr (offerId x) \<notin> set seen) offers
   \<and> subseq (newOffersOf offers (newSet seen)) offers
   \<and> newOffersOf offers (newSet (map JStr ids)) = filter (\<lambda>x. offerId x \<notin> set ids) offers"
proof -
  have a: "newOffersOf offers (newSet js) = filter (\<lambda>x. JStr (offerId x) \<notin> set js) offers" for js
    by (simp add: newOffersOf_def setHas_JStr set_newSet)
  have b: "subseq (newOffersOf offers (newSet seen)) offers"
    by (simp add: newOffersOf_def)
  have c: "(JStr s \<notin> set (map JStr ids)) = (s \<notin> set ids)" for s
    by auto
  show ?thesis using a b by (simp add: c del: set_map)
qed


section \<open>The notifier\<close>

text \<open>
  C9. \<open>notifyNewOffers\<close> on no offers returns at once: the world, its trace of log
  lines and requests included, is the one it was given, whatever the notification
  method and the platform.
\<close>

theorem notify_empty_noop: "notifyNewOffers pe e [] w = (Inr (), w)"
  by (simp add: notifyNewOffers_def)


section \<open>The cycle\<close>

text \<open>
  C5. When the server answers the conditional GET with 304, the whole effect of the
  cycle is the request and one log line: nothing is extracted, compared or notified,
  and both files are as they were.
\<close>

theorem not_modified_short_circuit:
  assumes "loadMeta w \<noteq> JNull"
    and "httpGet e (MONITOR_URL pe) (requestHeaders (loadMeta w)) = Response 304 hs body"
  shows "checkOnce pe e w =
           (Inr (), w\<lparr>trace := trace w @
              [Get (MONITOR_URL pe) (requestHeaders (loadMeta w)),
               ConsoleLog [now e, ''- Not modified (304). No changes.'']]\<rparr>)
         \<and> storageFile (snd (checkOnce pe e w)) = storageFile w
         \<and> metaFile (snd (checkOnce pe e w)) = metaFile w"
  using assms by (simp add: checkOnce_def Let_def validateStatus_def emit_def)

theorem not_modified_short_circuit_witness:
  "loadMeta \<lparr>storageFile = Parsed (JObj [(''offers'', JArr [JStr ''https://www.stwdo.de/a''])]),
             metaFile = Parsed (JObj [(''etag'', JStr ''v1'')]), trace = []\<rparr> \<noteq> JNull
   \<and> checkOnce (exampleVars None None) (exampleEnv emptyPage (Response 304 Map.empty None) None)
        \<lparr>storageFile = Parsed (JObj [(''offers'', JArr [JStr ''https://www.stwdo.de/a''])]),
         metaFile = Parsed (JObj [(''etag'', JStr ''v1'')]), trace = []\<rparr>
     = (Inr (),
        \<lparr>storageFile = Parsed (JObj [(''offers'', JArr [JStr ''https://www.stwdo.de/a''])]),
         metaFile = Parsed (JObj [(''etag'', JStr ''v1'')]),
         trace =
           [Get ''https://www.stwdo.de/wohnen/aktuelle-wohnangebote#residential-offer-list''
              [(''User-Agent'', JStr ''stwdo-offer-monitor/1.0 (+https://github.com)''),
               (''If-None-Match'', JStr ''v1'')],
            ConsoleLog [''2.11.2026, 09:00:00'', ''- Not modified (304). No changes.'']]\<rparr>)"
  using not_modified_short_circuit
    [of "\<lparr>storageFile = Parsed (JObj [(''offers'', JArr [JStr ''https://www.stwdo.de/a''])]),
          metaFile = Parsed (JObj [(''etag'', JStr ''v1'')]), trace = []\<rparr>"
        "exampleEnv emptyPage (Response 304 Map.empty None) None"
        "exampleVars None None" Map.empty None]
  by (simp add: loadMeta_def exampleEnv_def exampleVars_def MONITOR_URL_def orDefault_def
        requestHeaders_def withHeader_def)


section \<open>What a cycle does to the files\<close>

lemma emit_files [simp]:
  "storageFile (emit ev w) = storageFile w" "metaFile (emit ev w) = metaFile w"
  by (simp_all add: emit_def)

lemma axiosPost_files [simp]:
  "storageFile (snd (axiosPost e u p w)) = storageFile w"
  "metaFile (snd (axiosPost e u p w)) = metaFile w"
  by (simp_all add: axiosPost_def)

lemma notifyTelegram_ok:
  "fst (notifyTelegram pe e m w) = Inr ()
   \<and> storageFile (snd (notifyTelegram pe e m w)) = storageFile w
   \<and> metaFile (snd (notifyTelegram pe e m w)) = metaFile w"
  by (auto simp: notifyTelegram_def telegramMissing_def axiosPost_def
           split: option.splits sum.splits prod.splits)

lemma notifyWebhook_ok:
  "fst (notifyWebhook pe e m w) = Inr ()
   \<and> storageFile (snd (notifyWebhook pe e m w)) = storageFile w
   \<and> metaFile (snd (notifyWebhook pe e m w)) = metaFile w"
  by (auto simp: notifyWebhook_def webhookMissing_def axiosPost_def
           split: option.splits sum.splits prod.splits)

lemma notifyNewOffers_ok:
  "fst (notifyNewOffers pe e os w) = Inr ()
   \<and> storageFile (snd (notifyNewOffers pe e os w)) = storageFile w
   \<and> metaFile (snd (notifyNewOffers pe e os w)) = metaFile w"
  using notifyTelegram_ok notifyWebhook_ok
  by (simp add: notifyNewOffers_def Let_def)

lemma loadLastSeen_fst_cong:
  "storageFile w = storageFile w' \<Longrightarrow> fst (loadLastSeen w) = fst (loadLastSeen w')"
  by (simp add: loadLastSeen_def split: jsonFile.splits)

lemma loadLastSeen_files [simp]:
  "storageFile (snd (loadLastSeen w)) = storageFile w"
  "metaFile (snd (loadLastSeen w)) = metaFile w"
  by (simp_all add: loadLastSeen_def split: jsonFile.splits)

lemma loadLastSeen_never_throws: "\<exists>d. fst (loadLastSeen w) = Inr d"
  by (simp add: loadLastSeen_def split: jsonFile.splits)

lemma saveMeta_files [simp]:
  "storageFile (saveMeta m w) = storageFile w" "metaFile (saveMeta m w) = Parsed m"
  by (simp_all add: saveMeta_def)

lemma saveLastSeen_files [simp]:
  "storageFile (saveLastSeen d w) = Parsed d" "metaFile (saveLastSeen d w) = metaFile w"
  by (simp_all add: saveLastSeen_def)

lemma processContent_new_offers:
  assumes ext: "extractOffersFromHtml e (MONITOR_URL pe) (case body of Some s \<Rightarrow> s | None \<Rightarrow> []) = Inr offers"
    and prior: "fst (loadLastSeen w) = Inr prior"
    and new: "newOffersOf offers (newSet (offersOf prior)) \<noteq> []"
  shows "storageFile (processContent pe e meta hs body w) =
           Parsed (JObj [(''offers'',
             JArr (foldl setAdd (newSet (offersOf prior))
                    (map (\<lambda>x. JStr (offerId x)) (newOffersOf offers (newSet (offersOf prior))))))])"
    and "metaFile (processContent pe e meta hs body w) = Parsed (updatedMeta meta hs)"
proof -
  let ?w1 = "saveMeta (updatedMeta meta hs) w"
  obtain r w2 where l: "loadLastSeen ?w1 = (r, w2)" by (cases "loadLastSeen ?w1")
  have "fst (loadLastSeen ?w1) = fst (loadLastSeen w)"
    by (rule loadLastSeen_fst_cong) simp
  with l prior have r: "r = Inr prior" by simp
  have w2: "storageFile w2 = storageFile w" "metaFile w2 = Parsed (updatedMeta meta hs)"
    using loadLastSeen_files [of ?w1] l by simp_all
  let ?new = "newOffersOf offers (newSet (offersOf prior))"
  let ?w2' = "emit (ConsoleLog ([now e, ''- Detected new offers:''] @ map title ?new)) w2"
  obtain n w3 where nn: "notifyNewOffers pe e ?new ?w2' = (n, w3)"
    by (cases "notifyNewOffers pe e ?new ?w2'")
  have n: "n = Inr ()" and w3: "metaFile w3 = Parsed (updatedMeta meta hs)"
    using notifyNewOffers_ok [of pe e ?new ?w2'] nn w2 by simp_all
  have pc: "processContent pe e meta hs body w =
          saveLastSeen (JObj [(''offers'',
             JArr (foldl setAdd (newSet (offersOf prior)) (map (\<lambda>x. JStr (offerId x)) ?new)))]) w3"
    using ext l r new nn n by (simp add: processContent_def Let_def)
  show "storageFile (processContent pe e meta hs body w) =
           Parsed (JObj [(''offers'',
             JArr (foldl setAdd (newSet (offersOf prior))
                    (map (\<lambda>x. JStr (offerId x)) ?new)))])"
    by (simp add: pc)
  show "metaFile (processContent pe e meta hs body w) = Parsed (updatedMeta meta hs)"
    by (simp add: pc w3)
qed

lemma checkOnce_content:
  assumes "loadMeta w \<noteq> JNull"
    and "httpGet e (MONITOR_URL pe) (requestHeaders (loadMeta w)) = Response status hs body"
    and "200 \<le> status" "status < 300"
  shows "checkOnce pe e w =
           (Inr (), processContent pe e (loadMeta w) hs body
                      (emit (Get (MONITOR_URL pe) (requestHeaders (loadMeta w))) w))"
  using assms by (simp add: checkOnce_def Let_def validateStatus_def)



text \<open>
  C4. In a cycle that detects a new offer (the server answers with a 2xx status, the
  extraction returns, and some extracted offer is not in the loaded seen-set), the
  seen-set file written at the end holds an \<open>offers\<close> array that the next cycle loads
  as it is, and every element of the array loaded at the start is in it.
\<close>

theorem seen_set_monotone:
  assumes "loadMeta w \<noteq> JNull"
    and "httpGet e (MONITOR_URL pe) (requestHeaders (loadMeta w)) = Response status hs body"
    and "200 \<le> status" and "status < 300"
    and "extractOffersFromHtml e (MONITOR_URL pe) (case body of Some s \<Rightarrow> s | None \<Rightarrow> []) = Inr offers"
    and "fst (loadLastSeen w) = Inr prior"
    and "newOffersOf offers (newSet (offersOf prior)) \<noteq> []"
  shows "\<exists>ys. storageFile (snd (checkOnce pe e w)) = Parsed (JObj [(''offers'', JArr ys)])
            \<and> fst (loadLastSeen (snd (checkOnce pe e w))) = Inr (JObj [(''offers'', JArr ys)])
            \<and> set (offersOf prior) \<subseteq> set ys"
proof -
  let ?g = "emit (Get (MONITOR_URL pe) (requestHeaders (loadMeta w))) w"
  let ?ys = "foldl setAdd (newSet (offersOf prior))
               (map (\<lambda>x. JStr (offerId x)) (newOffersOf offers (newSet (offersOf prior))))"
  have c: "checkOnce pe e w = (Inr (), processContent pe e (loadMeta w) hs body ?g)"
    using assms(1-4) by (rule checkOnce_content)
  have "fst (loadLastSeen ?g) = fst (loadLastSeen w)"
    by (rule loadLastSeen_fst_cong) simp
  then have p: "fst (loadLastSeen ?g) = Inr prior" using assms(6) by simp
  have s: "storageFile (snd (checkOnce pe e w)) = Parsed (JObj [(''offers'', JArr ?ys)])"
    using processContent_new_offers(1) [OF assms(5) p assms(7)] c by simp
  then have l: "fst (loadLastSeen (snd (checkOnce pe e w))) = Inr (JObj [(''offers'', JArr ?ys)])"
    by (simp add: loadLastSeen_def isArray_def)
  have "set (offersOf prior) \<subseteq> set ?ys"
    by (simp add: set_foldl_setAdd set_newSet)
  with s l show ?thesis by blast
qed

theorem seen_set_monotone_witness:
  "loadMeta seenA \<noteq> JNull
   \<and> httpGet (exampleEnv (teaserPage oneTeaser) (Response 200 Map.empty (Some ''<html>'')) None)
        (MONITOR_URL (exampleVars None None)) (requestHeaders (loadMeta seenA))
       = Response 200 Map.empty (Some ''<html>'')
   \<and> extractOffersFromHtml (exampleEnv (teaserPage oneTeaser) (Response 200 Map.empty (Some ''<html>'')) None)
        (MONITOR_URL (exampleVars None None)) ''<html>''
       = Inr [\<lparr>offerId = ''https://www.stwdo.de/b'', title = ''Dortmund: Zimmer'',
                url = ''https://www.stwdo.de/b''\<rparr>]
   \<and> fst (loadLastSeen seenA) = Inr (JObj [(''offers'', JArr [JStr ''https://www.stwdo.de/a''])])
   \<and> (\<exists>ys. storageFile (snd (checkOnce (exampleVars None None)
                 (exampleEnv (teaserPage oneTeaser) (Response 200 Map.empty (Some ''<html>'')) None) seenA))
              = Parsed (JObj [(''offers'', JArr ys)])
            \<and> set [JStr ''https://www.stwdo.de/a''] \<subseteq> set ys)"
proof -
  let ?e = "exampleEnv (teaserPage oneTeaser) (Response 200 Map.empty (Some ''<html>'')) None"
  let ?pe = "exampleVars None None"
  let ?o = "\<lparr>offerId = ''https://www.stwdo.de/b'', title = ''Dortmund: Zimmer'',
                url = ''https://www.stwdo.de/b''\<rparr>"
  let ?prior = "JObj [(''offers'', JArr [JStr ''https://www.stwdo.de/a''])]"
  have h1: "loadMeta seenA \<noteq> JNull" by code_simp
  have h2: "httpGet ?e (MONITOR_URL ?pe) (requestHeaders (loadMeta seenA))
              = Response 200 Map.empty (Some ''<html>'')"
    by (simp add: exampleEnv_def)
  have h3: "(200::nat) \<le> 200" and h4: "(200::nat) < 300" by simp_all
  have h5: "extractOffersFromHtml ?e (MONITOR_URL ?pe)
              (case Some ''<html>'' of Some s \<Rightarrow> s | None \<Rightarrow> []) = Inr [?o]"
    by code_simp
  have h6: "fst (loadLastSeen seenA) = Inr ?prior" by code_simp
  have h7: "newOffersOf [?o] (newSet (offersOf ?prior)) \<noteq> []" by code_simp
  have o: "offersOf ?prior = [JStr ''https://www.stwdo.de/a'']" by code_simp
  from seen_set_monotone [OF h1 h2 h3 h4 h5 h6 h7]
  have "\<exists>ys. storageFile (snd (checkOnce ?pe ?e seenA)) = Parsed (JObj [(''offers'', JArr ys)])
            \<and> set [JStr ''https://www.stwdo.de/a''] \<subseteq> set ys"
    unfolding o by blast
  with h1 h2 h5 h6 show ?thesis by simp
qed


text \<open>
  C6. In a cycle that detects a new offer, whatever the notification method, the
  credentials and the way the POST ends (\<open>pe\<close> and \<open>httpPost e\<close> are arbitrary, a
  missing token and a throwing request included): \<open>notifyNewOffers\<close> returns without an
  exception, the cycle returns without one, and the seen-set file written afterwards
  holds the id of every new offer.
\<close>

theorem notify_failure_isolated:
  assumes "loadMeta w \<noteq> JNull"
    and "httpGet e (MONITOR_URL pe) (requestHeaders (loadMeta w)) = Response status hs body"
    and "200 \<le> status" and "status < 300"
    and "extractOffersFromHtml e (MONITOR_URL pe) (case body of Some s \<Rightarrow> s | None \<Rightarrow> []) = Inr offers"
    and "fst (loadLastSeen w) = Inr prior"
    and "newOffersOf offers (newSet (offersOf prior)) \<noteq> []"
  shows "fst (notifyNewOffers pe e (newOffersOf offers (newSet (offersOf prior))) w') = Inr ()
         \<and> fst (checkOnce pe e w) = Inr ()
         \<and> (\<exists>ys. storageFile (snd (checkOnce pe e w)) = Parsed (JObj [(''offers'', JArr ys)])
                \<and> (\<lambda>x. JStr (offerId x)) ` set (newOffersOf offers (newSet (offersOf prior)))
                     \<subseteq> set ys)"
proof -
  let ?g = "emit (Get (MONITOR_URL pe) (requestHeaders (loadMeta w))) w"
  let ?new = "newOffersOf offers (newSet (offersOf prior))"
  let ?ys = "foldl setAdd (newSet (offersOf prior)) (map (\<lambda>x. JStr (offerId x)) ?new)"
  have c: "checkOnce pe e w = (Inr (), processContent pe e (loadMeta w) hs body ?g)"
    using assms(1-4) by (rule checkOnce_content)
  have "fst (loadLastSeen ?g) = fst (loadLastSeen w)"
    by (rule loadLastSeen_fst_cong) simp
  then have p: "fst (loadLastSeen ?g) = Inr prior" using assms(6) by simp
  have s: "storageFile (snd (checkOnce pe e w)) = Parsed (JObj [(''offers'', JArr ?ys)])"
    using processContent_new_offers(1) [OF assms(5) p assms(7)] c by simp
  have i: "(\<lambda>x. JStr (offerId x)) ` set ?new \<subseteq> set ?ys"
    by (simp add: set_foldl_setAdd)
  have n: "fst (notifyNewOffers pe e ?new w') = Inr ()"
    using notifyNewOffers_ok by blast
  from c have r: "fst (checkOnce pe e w) = Inr ()" by simp
  from s i n r show ?thesis by blast
qed

theorem notify_failure_isolated_witness:
  "loadMeta seenA \<noteq> JNull
   \<and> httpGet (exampleEnv (teaserPage oneTeaser) (Response 200 Map.empty (Some ''<html>'')) (Some ''timeout''))
        (MONITOR_URL (exampleVars (Some ''telegram'') (Some ''123:abc''))) (requestHeaders (loadMeta seenA))
       = Response 200 Map.empty (Some ''<html>'')
   \<and> extractOffersFromHtml
        (exampleEnv (teaserPage oneTeaser) (Response 200 Map.empty (Some ''<html>'')) (Some ''timeout''))
        (MONITOR_URL (exampleVars (Some ''telegram'') (Some ''123:abc''))) ''<html>'' = Inr [offerB]
   \<and> fst (loadLastSeen seenA) = Inr (JObj [(''offers'', JArr [JStr ''https://www.stwdo.de/a''])])
   \<and> newOffersOf [offerB] (newSet [JStr ''https://www.stwdo.de/a'']) = [offerB]
   \<and> fst (checkOnce (exampleVars (Some ''telegram'') (Some ''123:abc''))
        (exampleEnv (teaserPage oneTeaser) (Response 200 Map.empty (Some ''<html>'')) (Some ''timeout''))
        seenA) = Inr ()
   \<and> ConsoleError [''Telegram notify error'', ''timeout'']
        \<in> set (trace (snd (checkOnce (exampleVars (Some ''telegram'') (Some ''123:abc''))
             (exampleEnv (teaserPage oneTeaser) (Response 200 Map.empty (Some ''<html>'')) (Some ''timeout''))
             seenA)))
   \<and> storageFile (snd (checkOnce (exampleVars (Some ''telegram'') (Some ''123:abc''))
        (exampleEnv (teaserPage oneTeaser) (Response 200 Map.empty (Some ''<html>'')) (Some ''timeout''))
        seenA))
       = Parsed (JObj [(''offers'', JArr [JStr ''https://www.stwdo.de/a'', JStr ''https://www.stwdo.de/b''])])"
proof -
  let ?e = "exampleEnv (teaserPage oneTeaser) (Response 200 Map.empty (Some ''<html>'')) (Some ''timeout'')"
  let ?pe = "exampleVars (Some ''telegram'') (Some ''123:abc'')"
  let ?prior = "JObj [(''offers'', JArr [JStr ''https://www.stwdo.de/a''])]"
  have h1: "loadMeta seenA \<noteq> JNull" by code_simp
  have h2: "httpGet ?e (MONITOR_URL ?pe) (requestHeaders (loadMeta seenA))
              = Response 200 Map.empty (Some ''<html>'')"
    by (simp add: exampleEnv_def)
  have h3: "(200::nat) \<le> 200" and h4: "(200::nat) < 300" by simp_all
  have h5: "extractOffersFromHtml ?e (MONITOR_URL ?pe)
              (case Some ''<html>'' of Some s \<Rightarrow> s | None \<Rightarrow> []) = Inr [offerB]"
    by code_simp
  have h6: "fst (loadLastSeen seenA) = Inr ?prior" by code_simp
  have o: "offersOf ?prior = [JStr ''https://www.stwdo.de/a'']" by code_simp
  have n: "newOffersOf [offerB] (newSet [JStr ''https://www.stwdo.de/a'']) = [offerB]" by code_simp
  have h7: "newOffersOf [offerB] (newSet (offersOf ?prior)) \<noteq> []" by (simp add: o n)
  have t: "ConsoleError [''Telegram notify error'', ''timeout'']
             \<in> set (trace (snd (checkOnce ?pe ?e seenA)))"
    by code_simp
  have s: "storageFile (snd (checkOnce ?pe ?e seenA))
             = Parsed (JObj [(''offers'', JArr [JStr ''https://www.stwdo.de/a'', JStr ''https://www.stwdo.de/b''])])"
    by code_simp
  from notify_failure_isolated [OF h1 h2 h3 h4 h5 h6 h7]
  have "fst (checkOnce ?pe ?e seenA) = Inr ()" by blast
  with h1 h2 h5 h6 n t s show ?thesis by simp
qed


text \<open>
  C10. \<open>NOTIFY_METHOD\<close> is the variable as the platform's \<open>toLowerCase\<close> returns it,
  so two values with the same lower-case form select the same channel; and for offers
  to report, every method whose lower-case form is none of \<open>telegram\<close>, \<open>webhook\<close>,
  \<open>email\<close> writes the message to the console, sends nothing, and returns without an
  exception.
\<close>

theorem notify_method_dispatch:
  "(a \<noteq> [] \<longrightarrow> NOTIFY_METHOD e (pe\<lparr>NOTIFY_METHOD_var := Some a\<rparr>) = toLowerCase e a)
   \<and> (a \<noteq> [] \<longrightarrow> b \<noteq> [] \<longrightarrow> toLowerCase e a = toLowerCase e b \<longrightarrow>
      notifyNewOffers (pe\<lparr>NOTIFY_METHOD_var := Some a\<rparr>) e newOffers w
        = notifyNewOffers (pe\<lparr>NOTIFY_METHOD_var := Some b\<rparr>) e newOffers w)
   \<and> (newOffers \<noteq> [] \<longrightarrow> NOTIFY_METHOD e pe \<notin> {''telegram'', ''webhook'', ''email''} \<longrightarrow>
        notifyNewOffers pe e newOffers w
          = (Inr (), emit (ConsoleLog [formatMessage e newOffers]) w))"
proof -
  have m: "NOTIFY_METHOD e (pe\<lparr>NOTIFY_METHOD_var := Some s\<rparr>) = toLowerCase e s" if "s \<noteq> []" for s
    using that by (simp add: NOTIFY_METHOD_def orDefault_def)
  have t: "notifyTelegram (pe\<lparr>NOTIFY_METHOD_var := x\<rparr>) e msg w = notifyTelegram pe e msg w" for x msg
    by (simp add: notifyTelegram_def split: option.splits)
  have h: "notifyWebhook (pe\<lparr>NOTIFY_METHOD_var := x\<rparr>) e msg w = notifyWebhook pe e msg w" for x msg
    by (simp add: notifyWebhook_def split: option.splits)
  have 1: "notifyNewOffers (pe\<lparr>NOTIFY_METHOD_var := Some a\<rparr>) e newOffers w
        = notifyNewOffers (pe\<lparr>NOTIFY_METHOD_var := Some b\<rparr>) e newOffers w"
    if "a \<noteq> []" "b \<noteq> []" "toLowerCase e a = toLowerCase e b"
    using that by (simp add: notifyNewOffers_def m t h Let_def)
  have 2: "notifyNewOffers pe e newOffers w = (Inr (), emit (ConsoleLog [formatMessage e newOffers]) w)"
    if "newOffers \<noteq> []" "NOTIFY_METHOD e pe \<notin> {''telegram'', ''webhook'', ''email''}"
    using that by (simp add: notifyNewOffers_def Let_def)
  from m [of a] 1 2 show ?thesis by blast
qed

theorem notify_method_dispatch_witness:
  "toLowerCase (exampleEnv emptyPage (NetworkFailure []) None) ''TeleGram''
     = toLowerCase (exampleEnv emptyPage (NetworkFailure []) None) ''telegram''
   \<and> notifyNewOffers ((exampleVars None (Some ''123:abc''))\<lparr>NOTIFY_METHOD_var := Some ''TeleGram''\<rparr>)
        (exampleEnv emptyPage (NetworkFailure []) None) [offerB] seenA
       = notifyNewOffers ((exampleVars None (Some ''123:abc''))\<lparr>NOTIFY_METHOD_var := Some ''telegram''\<rparr>)
        (exampleEnv emptyPage (NetworkFailure []) None) [offerB] seenA
   \<and> NOTIFY_METHOD (exampleEnv emptyPage (NetworkFailure []) None)
        ((exampleVars None None)\<lparr>NOTIFY_METHOD_var := Some (''WEBHOO'' @ [CHR 0xE2, CHR 0x84, CHR 0xAA])\<rparr>)
       = ''webhook''
   \<and> notifyNewOffers
        ((exampleVars None None)\<lparr>NOTIFY_METHOD_var := Some (''WEBHOO'' @ [CHR 0xE2, CHR 0x84, CHR 0xAA])\<rparr>)
        (exampleEnv emptyPage (NetworkFailure []) None) [offerB] seenA
       = (Inr (), emit (ConsoleError [''Webhook selected but WEBHOOK_URL is missing in env.'']) seenA)
   \<and> NOTIFY_METHOD (exampleEnv emptyPage (NetworkFailure []) None) (exampleVars (Some ''SMS'') None) = ''sms''
   \<and> notifyNewOffers (exampleVars (Some ''SMS'') None)
        (exampleEnv emptyPage (NetworkFailure []) None) [offerB] seenA
       = (Inr (), emit (ConsoleLog [formatMessage (exampleEnv emptyPage (NetworkFailure []) None) [offerB]]) seenA)"
proof -
  let ?e = "exampleEnv emptyPage (NetworkFailure []) None"
  let ?K = "''WEBHOO'' @ [CHR 0xE2, CHR 0x84, CHR 0xAA]"
  have l: "toLowerCase ?e ''TeleGram'' = toLowerCase ?e ''telegram''" by code_simp
  have lk: "toLowerCase ?e ?K = ''webhook''" by code_simp
  have lw: "toLowerCase ?e ''webhook'' = ''webhook''" by code_simp
  have m: "NOTIFY_METHOD ?e (exampleVars (Some ''SMS'') None) = ''sms''" by code_simp
  have k: "NOTIFY_METHOD ?e (exampleVars (Some ''SMS'') None) \<notin> {''telegram'', ''webhook'', ''email''}"
    unfolding m by simp
  have wh: "notifyNewOffers ((exampleVars None None)\<lparr>NOTIFY_METHOD_var := Some ''webhook''\<rparr>) ?e [offerB] seenA
       = (Inr (), emit (ConsoleError [''Webhook selected but WEBHOOK_URL is missing in env.'']) seenA)"
    by code_simp
  note d1 = notify_method_dispatch
         [where a = "''TeleGram''" and b = "''telegram''" and pe = "exampleVars None (Some ''123:abc'')"
            and e = ?e and newOffers = "[offerB]" and w = seenA]
  from d1 l
  have a: "notifyNewOffers ((exampleVars None (Some ''123:abc''))\<lparr>NOTIFY_METHOD_var := Some ''TeleGram''\<rparr>)
        ?e [offerB] seenA
       = notifyNewOffers ((exampleVars None (Some ''123:abc''))\<lparr>NOTIFY_METHOD_var := Some ''telegram''\<rparr>)
        ?e [offerB] seenA"
    by simp
  note d2 = notify_method_dispatch
         [where a = ?K and b = "''webhook''" and pe = "exampleVars None None"
            and e = ?e and newOffers = "[offerB]" and w = seenA]
  from d2 lk have nk: "NOTIFY_METHOD ?e ((exampleVars None None)\<lparr>NOTIFY_METHOD_var := Some ?K\<rparr>) = ''webhook''"
    by simp
  from d2 lk lw wh
  have c: "notifyNewOffers ((exampleVars None None)\<lparr>NOTIFY_METHOD_var := Some ?K\<rparr>) ?e [offerB] seenA
       = (Inr (), emit (ConsoleError [''Webhook selected but WEBHOOK_URL is missing in env.'']) seenA)"
    by simp
  note d3 = notify_method_dispatch
         [where a = "''TeleGram''" and b = "''telegram''" and pe = "exampleVars (Some ''SMS'') None"
            and e = ?e and newOffers = "[offerB]" and w = seenA]
  from d3 k
  have b: "notifyNewOffers (exampleVars (Some ''SMS'') None) ?e [offerB] seenA
       = (Inr (), emit (ConsoleLog [formatMessage ?e [offerB]]) seenA)"
    by simp
  from l a nk c m b show ?thesis by blast
qed


section \<open>The validators kept for the next request\<close>

lemma map_of_mapSet: "map_of (mapSet m k v) k' = (if k' = k then Some v else map_of m k')"
  by (induction m) auto

lemma decimal_digits: "c \<in> set (decimal n) \<Longrightarrow> (of_char c :: nat) < 58"
proof (induction n rule: decimal.induct)
  case (1 n)
  show ?case
  proof (cases "n < 10")
    case True
    with "1.prems" show ?thesis by (simp add: decimal.simps [of n])
  next
    case False
    have "n mod 10 < 10" by simp
    then have "(48 + n mod 10) mod 256 < 58" by simp
    with False "1.prems" "1.IH" show ?thesis
      by (auto simp: decimal.simps [of n])
  qed
qed

lemma index_key_digits: "k \<in> set (map decimal ns) \<Longrightarrow> c \<in> set k \<Longrightarrow> (of_char c :: nat) < 58"
  using decimal_digits by auto

lemma map_of_spread:
  assumes "c \<in> set k" and "\<not> (of_char c :: nat) < 58"
  shows "map_of (spread meta) k = getProp meta k"
proof -
  have n: "k \<notin> set (map decimal ns)" for ns
    using assms index_key_digits by blast
  have "map_of (zip (map decimal [0 ..< length xs]) xs) k = None" for xs :: "'a list"
    using n [of "[0 ..< length xs]"] by (simp add: map_of_zip_is_None del: set_map)
  from this [of "map JStr (characters s)" for s] this
  show ?thesis by (cases meta) simp_all
qed

lemma getProp_updatedMeta:
  assumes "c \<in> set k" and "\<not> (of_char c :: nat) < 58"
  shows "getProp (updatedMeta meta hs) k =
     (if k = ''lastModified'' \<and> (\<exists>v. hs ''last-modified'' = Some v \<and> v \<noteq> [])
        then map_option JStr (hs ''last-modified'')
      else if k = ''etag'' \<and> (\<exists>v. hs ''etag'' = Some v \<and> v \<noteq> [])
        then map_option JStr (hs ''etag'')
      else getProp meta k)"
  using map_of_spread [OF assms]
  by (auto simp: updatedMeta_def withValidator_def map_of_mapSet split: option.splits)

lemma loadLastSeen_snd_files:
  "loadLastSeen w = (r, w') \<Longrightarrow> storageFile w' = storageFile w \<and> metaFile w' = metaFile w"
  using loadLastSeen_files [of w] by simp

lemma notifyNewOffers_snd_files:
  "notifyNewOffers pe e os w = (r, w') \<Longrightarrow> storageFile w' = storageFile w \<and> metaFile w' = metaFile w"
  using notifyNewOffers_ok [of pe e os w] by simp

lemma processContent_metaFile:
  "metaFile (processContent pe e meta hs body w) = Parsed (updatedMeta meta hs)"
  by (auto simp: processContent_def Let_def fetchError_def
           split: sum.splits prod.splits
           dest!: loadLastSeen_snd_files notifyNewOffers_snd_files)

text \<open>
  C8, as amended. After a cycle whose GET was answered with a 2xx status, the meta that
  the next cycle loads has, for \<open>etag\<close> and for \<open>lastModified\<close>, the value of the
  response header (\<open>etag\<close>, \<open>last-modified\<close>) when the response has that header with a
  non-empty value, and otherwise (the header is absent, or present and empty) the value
  that this cycle loaded.
\<close>

theorem meta_validators_updated:
  assumes "loadMeta w \<noteq> JNull"
    and "httpGet e (MONITOR_URL pe) (requestHeaders (loadMeta w)) = Response status hs body"
    and "200 \<le> status" and "status < 300"
  shows "getProp (loadMeta (snd (checkOnce pe e w))) ''etag'' =
           (case hs ''etag'' of
              None \<Rightarrow> getProp (loadMeta w) ''etag''
            | Some v \<Rightarrow> if v \<noteq> [] then Some (JStr v) else getProp (loadMeta w) ''etag'')
         \<and> getProp (loadMeta (snd (checkOnce pe e w))) ''lastModified'' =
           (case hs ''last-modified'' of
              None \<Rightarrow> getProp (loadMeta w) ''lastModified''
            | Some v \<Rightarrow> if v \<noteq> [] then Some (JStr v) else getProp (loadMeta w) ''lastModified'')"
proof -
  have c: "checkOnce pe e w =
           (Inr (), processContent pe e (loadMeta w) hs body
                      (emit (Get (MONITOR_URL pe) (requestHeaders (loadMeta w))) w))"
    using assms by (rule checkOnce_content)
  have m: "loadMeta (snd (checkOnce pe e w)) = updatedMeta (loadMeta w) hs"
    by (simp add: c loadMeta_def processContent_metaFile)
  have e1: "CHR ''e'' \<in> set ''etag''" and e2: "\<not> (of_char (CHR ''e'') :: nat) < 58" by simp_all
  have l1: "CHR ''l'' \<in> set ''lastModified''" and l2: "\<not> (of_char (CHR ''l'') :: nat) < 58" by simp_all
  show ?thesis
    unfolding m getProp_updatedMeta [OF e1 e2] getProp_updatedMeta [OF l1 l2]
    by (auto split: option.splits)
qed


theorem meta_validators_updated_witness:
  "loadMeta metaV1 \<noteq> JNull
   \<and> httpGet (exampleEnv emptyPage (Response 200 [''etag'' \<mapsto> ''v2''] (Some ''<html>'')) None)
        (MONITOR_URL (exampleVars None None)) (requestHeaders (loadMeta metaV1))
       = Response 200 [''etag'' \<mapsto> ''v2''] (Some ''<html>'')
   \<and> getProp (loadMeta (snd (checkOnce (exampleVars None None)
          (exampleEnv emptyPage (Response 200 [''etag'' \<mapsto> ''v2''] (Some ''<html>'')) None) metaV1)))
        ''etag'' = Some (JStr ''v2'')
   \<and> getProp (loadMeta (snd (checkOnce (exampleVars None None)
          (exampleEnv emptyPage (Response 200 [''etag'' \<mapsto> ''v2''] (Some ''<html>'')) None) metaV1)))
        ''lastModified'' = Some (JStr ''Mon'')"
proof -
  let ?e = "exampleEnv emptyPage (Response 200 [''etag'' \<mapsto> ''v2''] (Some ''<html>'')) None"
  let ?pe = "exampleVars None None"
  have h1: "loadMeta metaV1 \<noteq> JNull" by code_simp
  have h2: "httpGet ?e (MONITOR_URL ?pe) (requestHeaders (loadMeta metaV1))
              = Response 200 [''etag'' \<mapsto> ''v2''] (Some ''<html>'')"
    by (simp add: exampleEnv_def)
  have h3: "(200::nat) \<le> 200" and h4: "(200::nat) < 300" by simp_all
  have p: "getProp (loadMeta metaV1) ''lastModified'' = Some (JStr ''Mon'')" by code_simp
  from meta_validators_updated [OF h1 h2 h3 h4] h1 h2 p show ?thesis by simp
qed

text \<open>
  C8 as stated fails for a header that is present and empty: the stored \<open>etag\<close> was
  \<open>v1\<close>, the response carries an \<open>etag\<close> header with the empty value, and the meta
  persisted keeps \<open>v1\<close>.
\<close>

theorem meta_empty_validator_counterexample:
  "loadMeta metaV1 \<noteq> JNull
   \<and> httpGet (exampleEnv emptyPage (Response 200 [''etag'' \<mapsto> []] (Some ''<html>'')) None)
        (MONITOR_URL (exampleVars None None)) (requestHeaders (loadMeta metaV1))
       = Response 200 [''etag'' \<mapsto> []] (Some ''<html>'')
   \<and> [''etag'' \<mapsto> []] ''etag'' = Some []
   \<and> getProp (loadMeta (snd (checkOnce (exampleVars None None)
          (exampleEnv emptyPage (Response 200 [''etag'' \<mapsto> []] (Some ''<html>'')) None) metaV1)))
        ''etag'' = Some (JStr ''v1'')
   \<and> getProp (loadMeta (snd (checkOnce (exampleVars None None)
          (exampleEnv emptyPage (Response 200 [''etag'' \<mapsto> []] (Some ''<html>'')) None) metaV1)))
        ''etag'' \<noteq> Some (JStr [])"
proof -
  let ?e = "exampleEnv emptyPage (Response 200 [''etag'' \<mapsto> []] (Some ''<html>'')) None"
  let ?pe = "exampleVars None None"
  have h1: "loadMeta metaV1 \<noteq> JNull" by code_simp
  have h2: "httpGet ?e (MONITOR_URL ?pe) (requestHeaders (loadMeta metaV1))
              = Response 200 [''etag'' \<mapsto> []] (Some ''<html>'')"
    by (simp add: exampleEnv_def)
  have g: "getProp (loadMeta (snd (checkOnce ?pe ?e metaV1))) ''etag'' = Some (JStr ''v1'')"
    by code_simp
  from h1 h2 g show ?thesis by simp
qed



section \<open>The two extraction strategies\<close>

lemma mapSet_fresh: "k \<notin> fst ` set m \<Longrightarrow> mapSet m k v = m @ [(k, v)]"
  by (induction m) auto

lemma map_fst_mapSet:
  "map fst (mapSet m k v) = (if k \<in> fst ` set m then map fst m else map fst m @ [k])"
proof (induction m)
  case Nil
  then show ?case by simp
next
  case (Cons p m)
  obtain k' v' where p: "p = (k', v')" by (cases p)
  show ?case
  proof (cases "k' = k")
    case True
    with p show ?thesis by simp
  next
    case False
    with p Cons.IH show ?thesis by auto
  qed
qed

lemma concat_characters: "concat (characters s) = s"
  by (induction s) (auto split: list.splits)

lemma isInternal_Nil: "\<not> isInternal []"
  by (simp add: isInternal_def startsWith_def)

lemma anchorStep_cases:
  "anchorStep e base m a =
     (case href a of
        None \<Rightarrow> Inr m
      | Some h \<Rightarrow>
          if isInternal h \<and> hasKeywords (trim (linkText a) @ h) then
            (case absoluteOf e base h of
               Inl err \<Rightarrow> Inl err
             | Inr u \<Rightarrow>
                 if mapHas m u then Inr m
                 else Inr (mapSet m u \<lparr>offerId = u,
                        title = (if trim (linkText a) \<noteq> [] then trim (linkText a) else u),
                        url = u\<rparr>))
          else Inr m)"
  using isInternal_Nil by (auto simp: anchorStep_def Let_def split: option.splits sum.splits)

lemma anchorStep_keys:
  assumes "anchorStep e base m a = Inr m'"
    and "list_all (\<lambda>p. offerId (snd p) = fst p) m"
  shows "fst ` set m' = fst ` set m \<union>
           {u. \<exists>h. href a = Some h \<and> isInternal h \<and> hasKeywords (trim (linkText a) @ h)
                  \<and> absoluteOf e base h = Inr u}"
    and "list_all (\<lambda>p. offerId (snd p) = fst p) m'"
proof -
  show "fst ` set m' = fst ` set m \<union>
           {u. \<exists>h. href a = Some h \<and> isInternal h \<and> hasKeywords (trim (linkText a) @ h)
                  \<and> absoluteOf e base h = Inr u}"
  proof (cases "href a")
    case None
    with assms(1) show ?thesis by (simp add: anchorStep_cases)
  next
    case (Some h)
    show ?thesis
    proof (cases "isInternal h \<and> hasKeywords (trim (linkText a) @ h)")
      case False
      with Some assms(1) show ?thesis by (auto simp: anchorStep_cases)
    next
      case True
      with Some assms(1) obtain u where u: "absoluteOf e base h = Inr u"
        by (auto simp: anchorStep_cases split: sum.splits)
      show ?thesis
      proof (cases "u \<in> fst ` set m")
        case True
        with \<open>isInternal h \<and> hasKeywords (trim (linkText a) @ h)\<close> Some assms(1) u
        show ?thesis by (auto simp: anchorStep_cases mapHas_def)
      next
        case False
        with \<open>isInternal h \<and> hasKeywords (trim (linkText a) @ h)\<close> Some assms(1) u
        show ?thesis by (auto simp: anchorStep_cases mapHas_def mapSet_fresh)
      qed
    qed
  qed
  show "list_all (\<lambda>p. offerId (snd p) = fst p) m'"
    using assms
    by (auto simp: anchorStep_cases mapHas_def mapSet_fresh split: option.splits if_splits sum.splits)
qed

lemma eachE_anchor_keys:
  assumes "eachE (anchorStep e base) as m = Inr m'"
    and "list_all (\<lambda>p. offerId (snd p) = fst p) m"
  shows "fst ` set m' = fst ` set m \<union>
           {u. \<exists>a \<in> set as. \<exists>h. href a = Some h \<and> isInternal h
                  \<and> hasKeywords (trim (linkText a) @ h) \<and> absoluteOf e base h = Inr u}
         \<and> list_all (\<lambda>p. offerId (snd p) = fst p) m'"
  using assms
proof (induction as arbitrary: m)
  case Nil
  then show ?case by simp
next
  case (Cons a as)
  from Cons.prems(1) obtain m1 where s: "anchorStep e base m a = Inr m1"
    and r: "eachE (anchorStep e base) as m1 = Inr m'"
    by (auto split: sum.splits)
  note k = anchorStep_keys [OF s Cons.prems(2)]
  from Cons.IH [OF r k(2)] k(1) show ?case by auto
qed

lemma eachE_anchor_total:
  assumes "\<forall>a \<in> set as. \<forall>h. href a = Some h \<longrightarrow> isInternal h \<longrightarrow>
              hasKeywords (trim (linkText a) @ h) \<longrightarrow> (\<exists>u. absoluteOf e base h = Inr u)"
  shows "\<exists>m'. eachE (anchorStep e base) as m = Inr m'"
  using assms
proof (induction as arbitrary: m)
  case Nil
  then show ?case by simp
next
  case (Cons a as)
  have "\<exists>m1. anchorStep e base m a = Inr m1"
    using Cons.prems by (auto simp: anchorStep_cases split: option.splits sum.splits)
  then obtain m1 where s: "anchorStep e base m a = Inr m1" ..
  from Cons.IH [of m1] Cons.prems obtain m' where "eachE (anchorStep e base) as m1 = Inr m'"
    by auto
  with s show ?case by simp
qed


lemma extract_structural:
  assumes "eachE (teaserStep e base) (teaserList (cheerioLoad e html)) [] = Inr m" and "m \<noteq> []"
  shows "extractOffersFromHtml e base html = Inr (mapValues m)"
  using assms by (simp add: extractOffersFromHtml_def Let_def)

lemma extract_fallback:
  assumes "eachE (teaserStep e base) (teaserList (cheerioLoad e html)) [] = Inr []"
  shows "extractOffersFromHtml e base html =
           (case eachE (anchorStep e base) (fallbackAnchors (cheerioLoad e html)) [] of
              Inl err \<Rightarrow> Inl err
            | Inr m \<Rightarrow> Inr (mapValues m))"
  using assms by (simp add: extractOffersFromHtml_def Let_def)

lemma keyed_ids: "list_all (\<lambda>p. offerId (snd p) = fst p) m \<Longrightarrow> map offerId (mapValues m) = map fst m"
  by (induction m) (auto simp: mapValues_def)

lemma zimmer_facts:
  "isInternal ''/wohnen/angebot/123''"
  "hasKeywords (trim ''Zimmer frei'' @ ''/wohnen/angebot/123'')"
  "trim ''Zimmer frei'' = ''Zimmer frei''"
  "\<not> startsWith ''/wohnen/angebot/123'' ''http''"
  "hasKeywords ''Zimmer frei/wohnen/angebot/123''"
  by code_simp+

text \<open>
  C7, as amended. (1) When the pass over the teaser elements leaves records in the map,
  the result of the extraction is those records: no anchor is looked at. (2) When it
  leaves none, and \<open>new URL\<close> accepts the href of every anchor that passes the test, the
  extraction returns, and the ids it returns are the absolute URLs of exactly the
  anchors, among those the container search selected, whose href starts with \<open>/\<close> or
  contains \<open>stwdo.de\<close> and whose trimmed text followed by the href matches the keyword
  pattern. (3) With no teaser element and the one anchor \<open>/wohnen/angebot/123\<close>,
  "Zimmer frei", the result is one offer whose id is that href as \<open>new URL\<close> resolves it.
\<close>

theorem fallback_strategy:
  "(eachE (teaserStep e base) (teaserList (cheerioLoad e html)) [] = Inr m \<longrightarrow> m \<noteq> [] \<longrightarrow>
      extractOffersFromHtml e base html = Inr (mapValues m))
   \<and> (eachE (teaserStep e base) (teaserList (cheerioLoad e html)) [] = Inr [] \<longrightarrow>
       (\<forall>a \<in> set (fallbackAnchors (cheerioLoad e html)). \<forall>h.
           href a = Some h \<longrightarrow> isInternal h \<longrightarrow> hasKeywords (trim (linkText a) @ h) \<longrightarrow>
           (\<exists>v. absoluteOf e base h = Inr v)) \<longrightarrow>
       (\<exists>offs. extractOffersFromHtml e base html = Inr offs
          \<and> set (map offerId offs) =
              {v. \<exists>a \<in> set (fallbackAnchors (cheerioLoad e html)). \<exists>h.
                    href a = Some h \<and> isInternal h \<and> hasKeywords (trim (linkText a) @ h)
                    \<and> absoluteOf e base h = Inr v}))
   \<and> (teaserList (cheerioLoad e html) = [] \<longrightarrow>
       fallbackAnchors (cheerioLoad e html)
         = [\<lparr>href = Some ''/wohnen/angebot/123'', linkText = ''Zimmer frei''\<rparr>] \<longrightarrow>
       newURL e ''/wohnen/angebot/123'' base = Some u \<longrightarrow>
       extractOffersFromHtml e base html = Inr [\<lparr>offerId = u, title = ''Zimmer frei'', url = u\<rparr>])"
proof (intro conjI impI)
  assume "eachE (teaserStep e base) (teaserList (cheerioLoad e html)) [] = Inr m" and "m \<noteq> []"
  then show "extractOffersFromHtml e base html = Inr (mapValues m)"
    by (rule extract_structural)
next
  let ?as = "fallbackAnchors (cheerioLoad e html)"
  assume t: "eachE (teaserStep e base) (teaserList (cheerioLoad e html)) [] = Inr []"
    and r: "\<forall>a \<in> set ?as. \<forall>h.
           href a = Some h \<longrightarrow> isInternal h \<longrightarrow> hasKeywords (trim (linkText a) @ h) \<longrightarrow>
           (\<exists>v. absoluteOf e base h = Inr v)"
  from eachE_anchor_total [OF r] obtain m' where m': "eachE (anchorStep e base) ?as [] = Inr m'"
    by blast
  have x: "extractOffersFromHtml e base html = Inr (mapValues m')"
    by (simp add: extract_fallback [OF t] m')
  from eachE_anchor_keys [OF m'] have k: "fst ` set m' =
           {v. \<exists>a \<in> set ?as. \<exists>h. href a = Some h \<and> isInternal h
                  \<and> hasKeywords (trim (linkText a) @ h) \<and> absoluteOf e base h = Inr v}"
    and i: "list_all (\<lambda>p. offerId (snd p) = fst p) m'"
    by simp_all
  have "set (map offerId (mapValues m')) = fst ` set m'"
    by (simp add: keyed_ids [OF i])
  with x k show "\<exists>offs. extractOffersFromHtml e base html = Inr offs
          \<and> set (map offerId offs) =
              {v. \<exists>a \<in> set ?as. \<exists>h.
                    href a = Some h \<and> isInternal h \<and> hasKeywords (trim (linkText a) @ h)
                    \<and> absoluteOf e base h = Inr v}"
    by simp
next
  assume t: "teaserList (cheerioLoad e html) = []"
    and a: "fallbackAnchors (cheerioLoad e html)
         = [\<lparr>href = Some ''/wohnen/angebot/123'', linkText = ''Zimmer frei''\<rparr>]"
    and n: "newURL e ''/wohnen/angebot/123'' base = Some u"
  have s: "eachE (teaserStep e base) (teaserList (cheerioLoad e html)) [] = Inr []"
    by (simp add: t)
  have ab: "absoluteOf e base ''/wohnen/angebot/123'' = Inr u"
    by (simp add: absoluteOf_def zimmer_facts(4) n)
  have "anchorStep e base [] \<lparr>href = Some ''/wohnen/angebot/123'', linkText = ''Zimmer frei''\<rparr>
          = Inr [(u, \<lparr>offerId = u, title = ''Zimmer frei'', url = u\<rparr>)]"
    by (simp add: anchorStep_cases zimmer_facts ab mapHas_def)
  then show "extractOffersFromHtml e base html = Inr [\<lparr>offerId = u, title = ''Zimmer frei'', url = u\<rparr>]"
    by (simp add: extract_fallback [OF s] a mapValues_def)
qed


theorem fallback_strategy_witness:
  "eachE (teaserStep (exampleEnv mixedPage (NetworkFailure []) None) (MONITOR_URL (exampleVars None None)))
      (teaserList (cheerioLoad (exampleEnv mixedPage (NetworkFailure []) None) ''<html>'')) []
     = Inr [(''https://www.stwdo.de/b'', offerB)]
   \<and> extractOffersFromHtml (exampleEnv mixedPage (NetworkFailure []) None)
        (MONITOR_URL (exampleVars None None)) ''<html>'' = Inr [offerB]
   \<and> eachE (teaserStep (exampleEnv linksPage (NetworkFailure []) None) (MONITOR_URL (exampleVars None None)))
      (teaserList (cheerioLoad (exampleEnv linksPage (NetworkFailure []) None) ''<html>'')) []
     = Inr []
   \<and> extractOffersFromHtml (exampleEnv linksPage (NetworkFailure []) None)
        (MONITOR_URL (exampleVars None None)) ''<html>'' = Inr [zimmerOffer]
   \<and> {v. \<exists>a \<in> set (fallbackAnchors (cheerioLoad (exampleEnv linksPage (NetworkFailure []) None) ''<html>'')).
          \<exists>h. href a = Some h \<and> isInternal h \<and> hasKeywords (trim (linkText a) @ h)
             \<and> absoluteOf (exampleEnv linksPage (NetworkFailure []) None)
                  (MONITOR_URL (exampleVars None None)) h = Inr v}
       = {''https://www.stwdo.de/wohnen/angebot/123''}
   \<and> teaserList (cheerioLoad (exampleEnv zimmerPage (NetworkFailure []) None) ''<html>'') = []
   \<and> fallbackAnchors (cheerioLoad (exampleEnv zimmerPage (NetworkFailure []) None) ''<html>'')
       = [\<lparr>href = Some ''/wohnen/angebot/123'', linkText = ''Zimmer frei''\<rparr>]
   \<and> newURL (exampleEnv zimmerPage (NetworkFailure []) None) ''/wohnen/angebot/123''
        (MONITOR_URL (exampleVars None None)) = Some ''https://www.stwdo.de/wohnen/angebot/123''
   \<and> extractOffersFromHtml (exampleEnv zimmerPage (NetworkFailure []) None)
        (MONITOR_URL (exampleVars None None)) ''<html>''
       = Inr [\<lparr>offerId = ''https://www.stwdo.de/wohnen/angebot/123'', title = ''Zimmer frei'',
                url = ''https://www.stwdo.de/wohnen/angebot/123''\<rparr>]"
proof -
  let ?b = "MONITOR_URL (exampleVars None None)"
  let ?e1 = "exampleEnv mixedPage (NetworkFailure []) None"
  let ?e2 = "exampleEnv linksPage (NetworkFailure []) None"
  let ?e3 = "exampleEnv zimmerPage (NetworkFailure []) None"
  let ?u = "''https://www.stwdo.de/wohnen/angebot/123''"
  have t1: "eachE (teaserStep ?e1 ?b) (teaserList (cheerioLoad ?e1 ''<html>'')) []
              = Inr [(''https://www.stwdo.de/b'', offerB)]"
    by code_simp
  have n1: "[(''https://www.stwdo.de/b'', offerB)] \<noteq> []" by simp
  from fallback_strategy [of ?e1 ?b "''<html>''" "[(''https://www.stwdo.de/b'', offerB)]"] t1 n1
  have x1: "extractOffersFromHtml ?e1 ?b ''<html>'' = Inr [offerB]"
    by (simp add: mapValues_def)
  have t2: "eachE (teaserStep ?e2 ?b) (teaserList (cheerioLoad ?e2 ''<html>'')) [] = Inr []"
    by code_simp
  have r2: "\<forall>a \<in> set (fallbackAnchors (cheerioLoad ?e2 ''<html>'')). \<forall>h.
           href a = Some h \<longrightarrow> isInternal h \<longrightarrow> hasKeywords (trim (linkText a) @ h) \<longrightarrow>
           (\<exists>v. absoluteOf ?e2 ?b h = Inr v)"
    by (simp add: absoluteOf_def exampleEnv_def)
  have x2: "extractOffersFromHtml ?e2 ?b ''<html>'' = Inr [zimmerOffer]"
    by code_simp
  have i2: "map offerId [zimmerOffer] = [?u]" by code_simp
  from fallback_strategy [of ?e2 ?b "''<html>''"] t2 r2
  obtain offs where "extractOffersFromHtml ?e2 ?b ''<html>'' = Inr offs"
    and "set (map offerId offs) =
           {v. \<exists>a \<in> set (fallbackAnchors (cheerioLoad ?e2 ''<html>'')).
              \<exists>h. href a = Some h \<and> isInternal h \<and> hasKeywords (trim (linkText a) @ h)
                 \<and> absoluteOf ?e2 ?b h = Inr v}"
    by blast
  with x2 i2 have s2: "{v. \<exists>a \<in> set (fallbackAnchors (cheerioLoad ?e2 ''<html>'')).
              \<exists>h. href a = Some h \<and> isInternal h \<and> hasKeywords (trim (linkText a) @ h)
                 \<and> absoluteOf ?e2 ?b h = Inr v} = {?u}"
    by simp
  have t3: "teaserList (cheerioLoad ?e3 ''<html>'') = []"
    by (simp add: exampleEnv_def zimmerPage_def)
  have a3: "fallbackAnchors (cheerioLoad ?e3 ''<html>'')
              = [\<lparr>href = Some ''/wohnen/angebot/123'', linkText = ''Zimmer frei''\<rparr>]"
    by code_simp
  have n3: "newURL ?e3 ''/wohnen/angebot/123'' ?b = Some ?u"
    by (simp add: exampleEnv_def)
  from fallback_strategy [of ?e3 ?b "''<html>''" _ ?u] t3 a3 n3
  have x3: "extractOffersFromHtml ?e3 ?b ''<html>''
              = Inr [\<lparr>offerId = ?u, title = ''Zimmer frei'', url = ?u\<rparr>]"
    by blast
  from t1 x1 t2 x2 s2 t3 a3 n3 x3 show ?thesis by blast
qed



text \<open>
  C7 as stated fails when \<open>new URL\<close> throws. Of the two anchors of \<open>brokenLinkPage\<close> both
  have an internal href and match the keyword pattern; the constructor rejects the
  second href, \<open>//\<close>, the exception leaves \<open>anchors.each\<close>, and the extraction returns no
  offer at all, not even for the first anchor.
\<close>

theorem fallback_unresolvable_counterexample:
  "fallbackAnchors (cheerioLoad strictEnv ''<html>'')
     = [\<lparr>href = Some ''/wohnen/angebot/1'', linkText = ''Zimmer''\<rparr>,
        \<lparr>href = Some ''//'', linkText = ''Wohnen''\<rparr>]
   \<and> isInternal ''/wohnen/angebot/1''
   \<and> hasKeywords (trim ''Zimmer'' @ ''/wohnen/angebot/1'')
   \<and> isInternal ''//''
   \<and> hasKeywords (trim ''Wohnen'' @ ''//'')
   \<and> newURL strictEnv ''//'' (MONITOR_URL (exampleVars None None)) = None
   \<and> extractOffersFromHtml strictEnv (MONITOR_URL (exampleVars None None)) ''<html>''
       = Inl (TypeError ''Invalid URL'')"
  by code_simp


section \<open>Duplicate ids within one extraction\<close>

text \<open>
  In both strategies a record is stored under its id and \<open>set\<close> never adds a key
  twice, so the ids of the result are pairwise distinct.
\<close>

lemma mapSet_keyed:
  "list_all (\<lambda>p. offerId (snd p) = fst p) m \<Longrightarrow> offerId v = k \<Longrightarrow>
     list_all (\<lambda>p. offerId (snd p) = fst p) (mapSet m k v)"
  by (induction m) auto

lemma distinct_mapSet: "distinct (map fst m) \<Longrightarrow> distinct (map fst (mapSet m k v))"
  by (simp add: map_fst_mapSet)

lemma teaserStep_inv:
  assumes "teaserStep e base m el = Inr m'"
    and "list_all (\<lambda>p. offerId (snd p) = fst p) m" and "distinct (map fst m)"
  shows "list_all (\<lambda>p. offerId (snd p) = fst p) m' \<and> distinct (map fst m')"
  using assms
  by (auto simp: teaserStep_def Let_def mapSet_keyed distinct_mapSet
           split: option.splits if_splits sum.splits)

lemma anchorStep_inv:
  assumes "anchorStep e base m el = Inr m'"
    and "list_all (\<lambda>p. offerId (snd p) = fst p) m" and "distinct (map fst m)"
  shows "list_all (\<lambda>p. offerId (snd p) = fst p) m' \<and> distinct (map fst m')"
  using assms
  by (auto simp: anchorStep_cases mapSet_keyed distinct_mapSet
           split: option.splits if_splits sum.splits)

lemma eachE_inv:
  assumes "\<And>m x m'. f m x = Inr m' \<Longrightarrow> P m \<Longrightarrow> P m'"
    and "eachE f xs m = Inr m'" and "P m"
  shows "P m'"
  using assms(2,3)
proof (induction xs arbitrary: m)
  case Nil
  then show ?case by simp
next
  case (Cons x xs)
  from Cons.prems(1) obtain m1 where "f m x = Inr m1" and "eachE f xs m1 = Inr m'"
    by (auto split: sum.splits)
  with Cons.IH assms(1) Cons.prems(2) show ?case by blast
qed

lemma extract_ids_distinct:
  assumes "extractOffersFromHtml e base html = Inr offs"
  shows "distinct (map offerId offs)"
proof -
  let ?P = "\<lambda>m. list_all (\<lambda>p. offerId (snd p) = fst p) m \<and> distinct (map fst m)"
  from assms obtain m where t: "eachE (teaserStep e base) (teaserList (cheerioLoad e html)) [] = Inr m"
    by (auto simp: extractOffersFromHtml_def Let_def split: sum.splits)
  have pm: "?P m"
    by (rule eachE_inv [where P = ?P, OF _ t]) (use teaserStep_inv in auto)
  show ?thesis
  proof (cases "m = []")
    case False
    with assms t have "offs = mapValues m"
      by (simp add: extract_structural)
    with pm show ?thesis by (simp add: keyed_ids)
  next
    case True
    with assms t obtain m' where
      a: "eachE (anchorStep e base) (fallbackAnchors (cheerioLoad e html)) [] = Inr m'"
      and o: "offs = mapValues m'"
      by (auto simp: extract_fallback split: sum.splits)
    have "?P m'"
      by (rule eachE_inv [where P = ?P, OF _ a]) (use anchorStep_inv in auto)
    with o show ?thesis by (simp add: keyed_ids)
  qed
qed

text \<open>
  C2. The claim is that in both strategies a later candidate with a recorded id is
  discarded and the first record, with its title, is kept. The anchor pass does so
  (it asks \<open>offersMap.has\<close> first). The teaser pass calls \<open>offersMap.set\<close> without
  asking: of two teaser elements with the same \<open>data-href\<close> the record of the second
  replaces that of the first, at the first one's position. Evaluated here on two such
  teasers, and on two such anchors for comparison.
\<close>

theorem structural_duplicate_overwrites:
  "extractOffersFromHtml (exampleEnv (teaserPage twinTeasers) (NetworkFailure []) None)
        (MONITOR_URL (exampleVars None None)) ''<html>''
     = Inr [\<lparr>offerId = ''https://www.stwdo.de/wohnen/angebot/7'', title = ''Dortmund: Apartment B'',
              url = ''https://www.stwdo.de/wohnen/angebot/7''\<rparr>]
   \<and> extractOffersFromHtml (exampleEnv twinAnchors (NetworkFailure []) None)
        (MONITOR_URL (exampleVars None None)) ''<html>''
     = Inr [\<lparr>offerId = ''https://www.stwdo.de/wohnen/angebot/7'', title = ''Apartment A'',
              url = ''https://www.stwdo.de/wohnen/angebot/7''\<rparr>]"
  by code_simp


section \<open>An unreadable seen-set file\<close>

text \<open>
  \<open>loadLastSeen\<close> returns on every path, so the \<open>catch\<close> around its call in
  \<open>checkOnce\<close> is never entered; with an unreadable file it returns the empty list, every
  extracted offer is new, and the file is overwritten with their ids.
\<close>

lemma corrupt_seen_reports_everything:
  assumes "loadMeta w \<noteq> JNull"
    and "httpGet e (MONITOR_URL pe) (requestHeaders (loadMeta w)) = Response status hs body"
    and "200 \<le> status" and "status < 300"
    and "extractOffersFromHtml e (MONITOR_URL pe) (case body of Some s \<Rightarrow> s | None \<Rightarrow> []) = Inr offers"
    and "offers \<noteq> []"
    and "storageFile w = Unparseable"
  shows "storageFile (snd (checkOnce pe e w)) =
           Parsed (JObj [(''offers'', JArr (foldl setAdd [] (map (\<lambda>x. JStr (offerId x)) offers)))])"
proof -
  let ?g = "emit (Get (MONITOR_URL pe) (requestHeaders (loadMeta w))) w"
  have c: "checkOnce pe e w = (Inr (), processContent pe e (loadMeta w) hs body ?g)"
    using assms(1-4) by (rule checkOnce_content)
  have p: "fst (loadLastSeen ?g) = Inr emptySeen"
    using assms(7) by (simp add: loadLastSeen_def)
  have o: "newSet (offersOf emptySeen) = []"
    by (simp add: emptySeen_def offersOf_def newSet_def)
  have n: "newOffersOf offers [] = offers"
    by (simp add: newOffersOf_def setHas_def)
  have "newOffersOf offers (newSet (offersOf emptySeen)) \<noteq> []"
    using assms(6) by (simp add: o n)
  from processContent_new_offers(1) [OF assms(5) p this] c show ?thesis
    by (simp add: o n)
qed

text \<open>
  C1. The claim is that a seen-set file that exists and cannot be parsed makes the cycle
  stop before it notifies or writes. Evaluated here on such a file and a page with one
  teaser: the cycle logs the warning of \<open>loadLastSeen\<close>, reports the offer as new on
  the console and writes the seen-set file; the message of the \<open>catch\<close> in \<open>checkOnce\<close>
  is not in the trace.
\<close>

theorem corrupt_seen_file_proceeds:
  "storageFile corruptSeen = Unparseable
   \<and> checkOnce (exampleVars None None)
        (exampleEnv (teaserPage oneTeaser) (Response 200 Map.empty (Some ''<html>'')) None) corruptSeen
     = (Inr (),
        \<lparr>storageFile = Parsed (JObj [(''offers'', JArr [JStr ''https://www.stwdo.de/b''])]),
         metaFile = Parsed (JObj []),
         trace =
           [Get ''https://www.stwdo.de/wohnen/aktuelle-wohnangebote#residential-offer-list''
              [(''User-Agent'', JStr ''stwdo-offer-monitor/1.0 (+https://github.com)'')],
            WriteJson ''stwdo-meta.json'' (JObj []),
            ConsoleWarn [''Warning: Could not read last seen file, starting with empty list.''],
            ConsoleLog [''2.11.2026, 09:00:00'', ''- Detected new offers:'', ''Dortmund: Zimmer''],
            ConsoleLog [formatMessage
              (exampleEnv (teaserPage oneTeaser) (Response 200 Map.empty (Some ''<html>'')) None)
              [offerB]],
            WriteJson ''stwdo-last.json''
              (JObj [(''offers'', JArr [JStr ''https://www.stwdo.de/b''])])]\<rparr>)"
  by code_simp



section \<open>The seen-set across any cycle\<close>

text \<open>
  Whatever a cycle does (it may throw, fail to fetch, find nothing new), every element of
  the array that \<open>loadLastSeen\<close> returned before it is in the array that
  \<open>loadLastSeen\<close> returns after it.
\<close>

lemma processContent_storage_kept:
  assumes "extractOffersFromHtml e (MONITOR_URL pe) (case body of Some s \<Rightarrow> s | None \<Rightarrow> []) = Inl err
           \<or> (\<exists>offers prior.
                 extractOffersFromHtml e (MONITOR_URL pe) (case body of Some s \<Rightarrow> s | None \<Rightarrow> []) = Inr offers
                 \<and> fst (loadLastSeen w) = Inr prior
                 \<and> newOffersOf offers (newSet (offersOf prior)) = [])"
  shows "storageFile (processContent pe e meta hs body w) = storageFile w"
proof -
  let ?w1 = "saveMeta (updatedMeta meta hs) w"
  obtain r w2 where l: "loadLastSeen ?w1 = (r, w2)" by (cases "loadLastSeen ?w1")
  have f: "fst (loadLastSeen ?w1) = fst (loadLastSeen w)"
    by (rule loadLastSeen_fst_cong) simp
  have w2: "storageFile w2 = storageFile w"
    using loadLastSeen_snd_files [OF l] by simp
  from assms show ?thesis
  proof
    assume "extractOffersFromHtml e (MONITOR_URL pe) (case body of Some s \<Rightarrow> s | None \<Rightarrow> []) = Inl err"
    then show ?thesis by (simp add: processContent_def Let_def fetchError_def)
  next
    assume "\<exists>offers prior.
                 extractOffersFromHtml e (MONITOR_URL pe) (case body of Some s \<Rightarrow> s | None \<Rightarrow> []) = Inr offers
                 \<and> fst (loadLastSeen w) = Inr prior
                 \<and> newOffersOf offers (newSet (offersOf prior)) = []"
    then obtain offers prior where
      x: "extractOffersFromHtml e (MONITOR_URL pe) (case body of Some s \<Rightarrow> s | None \<Rightarrow> []) = Inr offers"
      and p: "fst (loadLastSeen w) = Inr prior"
      and n: "newOffersOf offers (newSet (offersOf prior)) = []"
      by blast
    from l f p have r: "r = Inr prior" by simp
    from x l r n w2 show ?thesis by (simp add: processContent_def Let_def)
  qed
qed

lemma seen_set_never_shrinks:
  assumes "fst (loadLastSeen w) = Inr prior"
  shows "\<exists>after. fst (loadLastSeen (snd (checkOnce pe e w))) = Inr after
           \<and> set (offersOf prior) \<subseteq> set (offersOf after)"
proof -
  let ?w' = "snd (checkOnce pe e w)"
  have same: "storageFile ?w' = storageFile w \<Longrightarrow> ?thesis"
  proof -
    assume "storageFile ?w' = storageFile w"
    then have "fst (loadLastSeen ?w') = Inr prior"
      using loadLastSeen_fst_cong [of ?w' w] assms by simp
    then show ?thesis by blast
  qed
  let ?g = "emit (Get (MONITOR_URL pe) (requestHeaders (loadMeta w))) w"
  have pg: "fst (loadLastSeen ?g) = Inr prior"
    using loadLastSeen_fst_cong [of ?g w] assms by simp
  show ?thesis
  proof (cases "loadMeta w = JNull")
    case True
    then show ?thesis by (intro same) (simp add: checkOnce_def)
  next
    case False
    show ?thesis
    proof (cases "httpGet e (MONITOR_URL pe) (requestHeaders (loadMeta w))")
      case (NetworkFailure reason)
      with False show ?thesis
        by (intro same) (simp add: checkOnce_def Let_def fetchError_def)
    next
      case (Response status hs body)
      show ?thesis
      proof (cases "200 \<le> status \<and> status < 300")
        case no: False
        with False Response show ?thesis
          by (intro same) (auto simp: checkOnce_def Let_def fetchError_def validateStatus_def)
      next
        case True
        with False Response have c: "checkOnce pe e w =
            (Inr (), processContent pe e (loadMeta w) hs body ?g)"
          by (simp add: checkOnce_content)
        show ?thesis
        proof (cases "extractOffersFromHtml e (MONITOR_URL pe) (case body of Some s \<Rightarrow> s | None \<Rightarrow> [])")
          case (Inl err)
          then have "storageFile (processContent pe e (loadMeta w) hs body ?g) = storageFile ?g"
            by (intro processContent_storage_kept) simp
          with c show ?thesis by (intro same) simp
        next
          case (Inr offers)
          show ?thesis
          proof (cases "newOffersOf offers (newSet (offersOf prior)) = []")
            case True
            with Inr pg have "storageFile (processContent pe e (loadMeta w) hs body ?g) = storageFile ?g"
              by (intro processContent_storage_kept) blast
            with c show ?thesis by (intro same) simp
          next
            case new: False
            let ?ys = "foldl setAdd (newSet (offersOf prior))
               (map (\<lambda>x. JStr (offerId x)) (newOffersOf offers (newSet (offersOf prior))))"
            have s: "storageFile ?w' = Parsed (JObj [(''offers'', JArr ?ys)])"
              using processContent_new_offers(1) [OF Inr pg new] c by simp
            then have "fst (loadLastSeen ?w') = Inr (JObj [(''offers'', JArr ?ys)])"
              by (simp add: loadLastSeen_def isArray_def)
            moreover have "set (offersOf prior) \<subseteq> set (offersOf (JObj [(''offers'', JArr ?ys)]))"
              by (simp add: offersOf_def set_foldl_setAdd set_newSet)
            ultimately show ?thesis by blast
          qed
        qed
      qed
    qed
  qed
qed


end
